theory Spec2Isabelle
  imports Complex_Main "HOL-Library.Word" "HOL-Library.Log_Nat"
begin

section \<open>PDF creator: the validator, the layout arithmetic and the document assembler\<close>

text \<open>
  A shallow embedding of \<^verbatim>\<open>src/services/pdfService.tsx\<close> (class \<^verbatim>\<open>PDFService\<close>), of the
  option handlers of the \<^verbatim>\<open>ImageLayout\<close> component and of the state of \<^verbatim>\<open>App.tsx\<close>.

  Conventions of the embedding:
  \<^item> a JavaScript \<^verbatim>\<open>number\<close> that holds a length, a coordinate or a margin is the \<open>real\<close>
    value of a finite IEEE double, and the arithmetic of the layout is the arithmetic of
    doubles: every sum, difference, product and quotient is rounded to the nearest double,
    ties to even. \<open>Infinity\<close> and \<open>NaN\<close> are not numbers of the model: a division by zero
    gives \<open>0\<close> in HOL, and a result beyond the largest double stays finite. Every statement
    that depends on the value of a quotient or on the size of a rounding error carries the
    hypothesis that the divisor is positive and that the results are in the range of the
    normal doubles;
  \<^item> a file name is a list of UTF-16 code units, as the program indexes it; a media type
    and a message without a file name are a \<open>string\<close>. \<^verbatim>\<open>toLowerCase\<close> is the ASCII case
    mapping on a name of ASCII characters, and a parameter on any other name;
  \<^item> a thrown exception is the \<open>Inl\<close> of a sum, a value returned the \<open>Inr\<close>;
  \<^item> a loop that the source does not bound is a \<^theory_text>\<open>partial_function\<close> over
    \<open>option\<close>, \<open>None\<close> standing for a run that never returns;
  \<^item> the library \<^verbatim>\<open>pdf-lib\<close> is a parameter (a record of functions): what it decodes,
    loads and serialises is not part of this program.
\<close>

subsection \<open>Strings\<close>

definition upperCase :: string where
  "upperCase = ''ABCDEFGHIJKLMNOPQRSTUVWXYZ''"

definition lowerCase :: string where
  "lowerCase = ''abcdefghijklmnopqrstuvwxyz''"

text \<open>A JavaScript string on which the program computes indices: its UTF-16 code units.
  \<open>ascii\<close> is the string of a literal of ASCII characters.\<close>

type_synonym jsstring = "16 word list"

definition codeUnit :: "char \<Rightarrow> 16 word" where
  "codeUnit c = of_nat (of_char c)"

definition ascii :: "string \<Rightarrow> jsstring" where
  "ascii s = map codeUnit s"

definition isAscii :: "jsstring \<Rightarrow> bool" where
  "isAscii s = list_all (\<lambda>u. u < 128) s"

text \<open>The lower case of an ASCII code unit: \<open>A\<close> to \<open>Z\<close> (65 to 90) move to \<open>a\<close> to \<open>z\<close>.\<close>

definition toLowerUnit :: "16 word \<Rightarrow> 16 word" where
  "toLowerUnit u = (if 65 \<le> u \<and> u \<le> 90 then u + 32 else u)"

text \<open>\<^verbatim>\<open>s.toLowerCase()\<close>. On a string of ASCII characters it maps the letters one by one.
  On any other string it follows the Unicode case mappings, which are not part of this
  program and which can change the length of the string (U+0130 becomes U+0069 U+0307):
  there it is the parameter \<open>unicodeLower\<close>.\<close>

definition toLowerCase :: "(jsstring \<Rightarrow> jsstring) \<Rightarrow> jsstring \<Rightarrow> jsstring" where
  "toLowerCase unicodeLower s = (if isAscii s then map toLowerUnit s else unicodeLower s)"

text \<open>\<^verbatim>\<open>s.startsWith(p)\<close> and \<^verbatim>\<open>s.includes(p)\<close>.\<close>

definition startsWith :: "string \<Rightarrow> string \<Rightarrow> bool" where
  "startsWith s p = (take (length p) s = p)"

fun includes_str :: "string \<Rightarrow> string \<Rightarrow> bool" where
  "includes_str [] p = (p = [])"
| "includes_str (c # cs) p = (startsWith (c # cs) p \<or> includes_str cs p)"

text \<open>\<^verbatim>\<open>s.lastIndexOf(c)\<close> for a search string of one code unit: the index of the last
  occurrence, \<open>-1\<close> when there is none.\<close>

fun lastIndexOf :: "'a list \<Rightarrow> 'a \<Rightarrow> int" where
  "lastIndexOf [] c = -1"
| "lastIndexOf (x # xs) c =
     (let r = lastIndexOf xs c
      in if 0 \<le> r then r + 1 else if x = c then 0 else -1)"

text \<open>\<^verbatim>\<open>s.slice(start)\<close>: a negative start counts from the end, and both are clamped to the
  string.\<close>

definition slice_from :: "'a list \<Rightarrow> int \<Rightarrow> 'a list" where
  "slice_from s start =
     (let n = int (length s);
          k = (if start < 0 then max (n + start) 0 else min start n)
      in drop (nat k) s)"

subsection \<open>Files and the validator\<close>

type_synonym bytes = "8 word list"

text \<open>A browser \<^verbatim>\<open>File\<close>: its name, its declared media type, its size in bytes and its
  content (what \<^verbatim>\<open>file.arrayBuffer()\<close> resolves to).\<close>

record File =
  fname :: jsstring
  ftype :: string
  fsize :: nat
  fbytes :: bytes

definition MAX_FILE_SIZE :: nat where
  "MAX_FILE_SIZE = 100 * 1024 * 1024"

definition supportedTypes :: "string list" where
  "supportedTypes = [''image/jpeg'', ''image/jpg'', ''image/png'', ''application/pdf'']"

definition supportedExtensions :: "string list" where
  "supportedExtensions = [''.pdf'', ''.jpg'', ''.jpeg'', ''.png'', ''.jpe'', ''.jif'', ''.jfif'']"

text \<open>\<^verbatim>\<open>file.name.toLowerCase().slice(file.name.lastIndexOf('.'))\<close>: the index is taken in
  the name as it is, the slice in the lower-cased name.\<close>

definition fileExtension :: "(jsstring \<Rightarrow> jsstring) \<Rightarrow> jsstring \<Rightarrow> jsstring" where
  "fileExtension unicodeLower name =
     slice_from (toLowerCase unicodeLower name) (lastIndexOf name (codeUnit CHR ''.''))"

text \<open>\<^verbatim>\<open>validateFile\<close>: \<open>None\<close> is the \<^verbatim>\<open>null\<close> of an accepted file, \<open>Some msg\<close> the
  message of a rejected one. The argument is \<open>None\<close> for a missing file reference.\<close>

definition validateFile :: "(jsstring \<Rightarrow> jsstring) \<Rightarrow> File option \<Rightarrow> jsstring option" where
  "validateFile unicodeLower fo =
     (case fo of
        None \<Rightarrow> Some (ascii ''Invalid file provided'')
      | Some f \<Rightarrow>
          if fsize f > MAX_FILE_SIZE
          then Some (ascii ''File '' @ fname f
                     @ ascii '' is too large. Maximum size is 100MB'')
          else if \<not> List.member supportedTypes (ftype f)
                  \<or> \<not> List.member (map ascii supportedExtensions)
                                   (fileExtension unicodeLower (fname f))
          then Some (ascii ''File '' @ fname f
                     @ ascii '' is not supported. Please use PDF, JPG, JPEG, or PNG files'')
          else None)"


subsection \<open>Options, errors and the document\<close>

datatype imagesPerPage = One | Two | Four

text \<open>The number a value of the type \<^verbatim>\<open>1 | 2 | 4\<close> stands for.\<close>

fun ipp_num :: "imagesPerPage \<Rightarrow> nat" where
  "ipp_num One = 1"
| "ipp_num Two = 2"
| "ipp_num Four = 4"

datatype orientation = Portrait | Landscape

record margins =
  m_top :: real
  m_right :: real
  m_bottom :: real
  m_left :: real

record border =
  enabled :: bool
  b_width :: real
  color :: string

record PDFOptions =
  imagesPerPage :: imagesPerPage
  margins :: margins
  border :: border
  orientation :: orientation

text \<open>\<^verbatim>\<open>class PDFError\<close>: the message and the optional file name.\<close>

datatype PDFError = PDFError (message: string) (fileName: "jsstring option")

text \<open>A value that may be a number, \<^verbatim>\<open>NaN\<close> or \<^verbatim>\<open>undefined\<close>: the colour components
  that the border code hands to \<^verbatim>\<open>rgb\<close>.\<close>

datatype jsval = Num real | NaN | Undefined

type_synonym rgbcolor = "jsval \<times> jsval \<times> jsval"

text \<open>An embedded image (\<^verbatim>\<open>PDFImage\<close>): the object's identity and its pixel size.\<close>

record image =
  iref :: nat
  iwidth :: real
  iheight :: real

text \<open>What is drawn on a page, in drawing order: \<^verbatim>\<open>page.drawRectangle\<close> with its
  position, size, border width and border colour, and \<^verbatim>\<open>page.drawImage\<close>.\<close>

datatype drawop =
    DrawRectangle real real real real real rgbcolor
  | DrawImage image real real real real

text \<open>A page of the output document: a page made by \<^verbatim>\<open>addPage(pageSize)\<close>, with its
  size and what was drawn on it, or a page copied from a loaded document, whose content is
  opaque.\<close>

type_synonym srcpage = string

datatype page =
    NewPage "real \<times> real" "drawop list"
  | CopiedPage srcpage

text \<open>The library. \<open>createFails\<close>: \<^verbatim>\<open>PDFDocument.create()\<close> rejects. \<open>embedJpg\<close>,
  \<open>embedPng\<close>: the message of the error thrown, or the image (\<open>None\<close> for a falsy
  result). \<open>load\<close>: the pages of the loaded document. \<open>copyFails\<close>: \<^verbatim>\<open>copyPages\<close> throws.
  \<open>saveFails\<close>: \<^verbatim>\<open>save\<close> throws. \<open>rgb\<close>: the colour constructor, which checks its
  arguments. \<open>A4\<close>: \<^verbatim>\<open>PageSizes.A4\<close>, width then height. \<open>nullMapMessage\<close>: the message
  of the \<^verbatim>\<open>TypeError\<close> that the engine throws for \<^verbatim>\<open>null.map\<close>.\<close>

record pdflib =
  createFails :: bool
  embedJpg :: "bytes \<Rightarrow> string + image option"
  embedPng :: "bytes \<Rightarrow> string + image option"
  load :: "bytes \<Rightarrow> string + srcpage list"
  copyFails :: "srcpage list \<Rightarrow> string option"
  saveFails :: "page list \<Rightarrow> string option"
  rgb :: "jsval \<Rightarrow> jsval \<Rightarrow> jsval \<Rightarrow> string + rgbcolor"
  A4 :: "real \<times> real"
  nullMapMessage :: string

text \<open>\<^verbatim>\<open>error.message || 'Unknown error'\<close>.\<close>

definition orUnknown :: "string \<Rightarrow> string" where
  "orUnknown m = (if m = [] then ''Unknown error'' else m)"

subsection \<open>The border colour\<close>

text \<open>The class \<^verbatim>\<open>\\w\<close> of the regular expression: letters, digits and the underscore.\<close>

definition isWordChar :: "char \<Rightarrow> bool" where
  "isWordChar c = (c \<in> set (upperCase @ lowerCase @ ''0123456789_''))"

text \<open>\<^verbatim>\<open>s.match(/\\w\\w/g)\<close>: the matches from left to right, each starting where the one
  before ended; \<open>None\<close> is the \<^verbatim>\<open>null\<close> of a string with no match.\<close>

fun scanPairs :: "string \<Rightarrow> string list" where
  "scanPairs (a # b # rest) =
     (if isWordChar a \<and> isWordChar b then [a, b] # scanPairs rest
      else scanPairs (b # rest))"
| "scanPairs s = []"

definition matchPairs :: "string \<Rightarrow> string list option" where
  "matchPairs s = (let ms = scanPairs s in if ms = [] then None else Some ms)"

text \<open>The value of a hexadecimal digit, \<open>None\<close> for any other character.\<close>

definition hexDigit :: "char \<Rightarrow> nat option" where
  "hexDigit c =
     map_of (zip ''0123456789abcdefABCDEF''
                 [0, 1, 2, 3, 4, 5, 6, 7, 8, 9, 10, 11, 12, 13, 14, 15, 10, 11, 12, 13, 14, 15]) c"

text \<open>\<^verbatim>\<open>parseInt(s, 16)\<close> on a string without leading white space or sign (the matches
  of \<^verbatim>\<open>\\w\\w\<close> have neither): an optional prefix \<^verbatim>\<open>0x\<close> or \<^verbatim>\<open>0X\<close> is dropped, the
  longest run of hexadecimal digits is read, and no digit at all gives \<^verbatim>\<open>NaN\<close> (\<open>None\<close>).\<close>

fun hexValue :: "nat \<Rightarrow> string \<Rightarrow> nat" where
  "hexValue acc [] = acc"
| "hexValue acc (c # cs) =
     (case hexDigit c of None \<Rightarrow> acc | Some d \<Rightarrow> hexValue (16 * acc + d) cs)"

definition parseInt16 :: "string \<Rightarrow> nat option" where
  "parseInt16 s =
     (let t = (if startsWith s ''0x'' \<or> startsWith s ''0X'' then drop 2 s else s)
      in case t of
           [] \<Rightarrow> None
         | c # cs \<Rightarrow> (if hexDigit c = None then None else Some (hexValue 0 t)))"

text \<open>\<^verbatim>\<open>parseInt(x, 16) / 255\<close>.\<close>

definition component :: "string \<Rightarrow> jsval" where
  "component x = (case parseInt16 x of None \<Rightarrow> NaN | Some n \<Rightarrow> Num (real n / 255))"

text \<open>An array element read by destructuring: \<^verbatim>\<open>undefined\<close> beyond the end.\<close>

definition element :: "jsval list \<Rightarrow> nat \<Rightarrow> jsval" where
  "element xs i = (if i < length xs then xs ! i else Undefined)"

text \<open>Lines 191 to 193 of \<^verbatim>\<open>embedImageInPage\<close>:
  \<^verbatim>\<open>const [r, g, b] = color.match(/\\w\\w/g)!.map(x => parseInt(x, 16) / 255)\<close>.
  \<open>None\<close> is the \<^verbatim>\<open>TypeError\<close> of \<^verbatim>\<open>null.map\<close>: the \<^verbatim>\<open>!\<close> checks nothing when the
  program runs.\<close>

definition borderColor :: "string \<Rightarrow> (jsval \<times> jsval \<times> jsval) option" where
  "borderColor c =
     (case matchPairs c of
        None \<Rightarrow> None
      | Some ms \<Rightarrow>
          (let cs = map component ms in Some (element cs 0, element cs 1, element cs 2)))"

subsection \<open>The arithmetic of doubles\<close>

text \<open>\<open>pow2 e\<close> is \<open>2\<close> to the power \<open>e\<close>, for an integer \<open>e\<close>.\<close>

definition pow2 :: "int \<Rightarrow> real" where
  "pow2 e = (if 0 \<le> e then 2 ^ nat e else 1 / 2 ^ nat (- e))"

text \<open>The nearest integer, the even one of the two when they are equally near.\<close>

definition rne :: "real \<Rightarrow> int" where
  "rne r =
     (let n = \<lfloor>r\<rfloor>; f = r - of_int n
      in if f < 1 / 2 then n else if 1 / 2 < f then n + 1 else if even n then n else n + 1)"

text \<open>The binary exponent of a number other than \<open>0\<close>: the \<open>e\<close> with
  \<open>2 ^ e \<le> \<bar>x\<bar> < 2 ^ (e + 1)\<close>, computed from the number of binary digits of the integer
  part of \<open>\<bar>x\<bar>\<close>, or of \<open>1 / \<bar>x\<bar>\<close> when \<open>\<bar>x\<bar> < 1\<close>.\<close>

definition expo :: "real \<Rightarrow> int" where
  "expo x =
     (if 1 \<le> \<bar>x\<bar> then int (floorlog 2 (nat \<lfloor>\<bar>x\<bar>\<rfloor>)) - 1
      else - int (floorlog 2 (nat (\<lceil>1 / \<bar>x\<bar>\<rceil> - 1))))"

text \<open>Rounding to the nearest double (binary64), ties to even: a significand of 53 binary
  digits, and below \<open>2 ^ -1022\<close> the fixed spacing \<open>2 ^ -1074\<close> of the subnormal doubles.\<close>

definition round64 :: "real \<Rightarrow> real" where
  "round64 x =
     (if x = 0 then 0
      else (let q = pow2 (max (expo x) (- 1022) - 52) in of_int (rne (x / q)) * q))"

text \<open>The operators \<^verbatim>\<open>+\<close>, \<^verbatim>\<open>-\<close>, \<^verbatim>\<open>*\<close> and \<^verbatim>\<open>/\<close> of the program, on doubles.\<close>

definition fadd :: "real \<Rightarrow> real \<Rightarrow> real" where
  "fadd x y = round64 (x + y)"

definition fsub :: "real \<Rightarrow> real \<Rightarrow> real" where
  "fsub x y = round64 (x - y)"

definition fmul :: "real \<Rightarrow> real \<Rightarrow> real" where
  "fmul x y = round64 (x * y)"

definition fdiv :: "real \<Rightarrow> real \<Rightarrow> real" where
  "fdiv x y = round64 (x / y)"

text \<open>The largest double, and the exact results that are rounded to a normal double:
  no underflow to the subnormal doubles and no overflow.\<close>

definition maxDouble :: real where
  "maxDouble = pow2 1024 - pow2 971"

definition normal :: "real \<Rightarrow> bool" where
  "normal z = (pow2 (- 1022) \<le> \<bar>z\<bar> \<and> \<bar>z\<bar> \<le> maxDouble)"

subsection \<open>The slot of an image and the fitted box\<close>

text \<open>The last argument of \<^verbatim>\<open>embedImageInPage\<close>.\<close>

record dimensions =
  d_x :: real
  d_y :: real
  d_width :: real
  d_height :: real
  d_border :: border

text \<open>Lines 118 to 141 of \<^verbatim>\<open>addImagesToDocument\<close>: the rectangle handed to
  \<^verbatim>\<open>embedImageInPage\<close> for the image at index \<open>i\<close> of its group, on a page of the given
  width and height. The index, \<open>cols\<close>, \<open>rows\<close>, \<open>row\<close> and \<open>col\<close> are small integers
  (an index is below the length of an array), on which \<^verbatim>\<open>i / cols\<close>, \<^verbatim>\<open>cols - 1\<close> and
  \<^verbatim>\<open>row + 1\<close> are exact; every other operation is an operation on doubles.\<close>

definition slotDimensions :: "real \<Rightarrow> real \<Rightarrow> PDFOptions \<Rightarrow> nat \<Rightarrow> dimensions" where
  "slotDimensions width height options i =
     (let m = margins options;
          cols = (if ipp_num (imagesPerPage options) = 4 then 2 else 1 :: nat);
          rows = (if ipp_num (imagesPerPage options) = 1 then 1 else 2 :: nat);
          contentWidth = fsub (fsub width (m_left m)) (m_right m);
          contentHeight = fsub (fsub height (m_top m)) (m_bottom m);
          imageWidth = fdiv (fsub contentWidth (fmul (real cols - 1) (m_right m))) (real cols);
          imageHeight = fdiv (fsub contentHeight (fmul (real rows - 1) (m_bottom m))) (real rows);
          row = nat \<lfloor>real i / real cols\<rfloor>;
          col = i mod cols;
          x = fadd (m_left m) (fmul (real col) (fadd imageWidth (m_right m)));
          y = fsub (fsub (fsub height (m_top m)) (fmul (real row + 1) imageHeight))
                (fmul (real row) (m_bottom m))
      in \<lparr>d_x = x, d_y = y, d_width = imageWidth, d_height = imageHeight,
          d_border = border options\<rparr>)"

text \<open>Lines 177 to 187 of \<^verbatim>\<open>embedImageInPage\<close>: the box \<open>(x, y, width, height)\<close> the image
  is drawn in.\<close>

definition fitImage :: "image \<Rightarrow> dimensions \<Rightarrow> real \<times> real \<times> real \<times> real" where
  "fitImage img d =
     (let aspectRatio = fdiv (iwidth img) (iheight img);
          width = (if fdiv (d_width d) (d_height d) > aspectRatio
                   then fmul (d_height d) aspectRatio else d_width d);
          height = (if fdiv (d_width d) (d_height d) > aspectRatio
                    then d_height d else fdiv (d_width d) aspectRatio);
          x = fadd (d_x d) (fdiv (fsub (d_width d) width) 2);
          y = fadd (d_y d) (fdiv (fsub (d_height d) height) 2)
      in (x, y, width, height))"

subsection \<open>Embedding an image\<close>

text \<open>Lines 162 to 175 of \<^verbatim>\<open>embedImageInPage\<close>: the image is decoded by the subtype that
  the declared type contains. \<open>Inl\<close> holds the message of whatever was thrown, which is all
  that the \<^verbatim>\<open>catch\<close> of line 206 reads.\<close>

definition decodeImage :: "pdflib \<Rightarrow> File \<Rightarrow> string + image" where
  "decodeImage lib file =
     (let embedded =
            (if includes_str (ftype file) ''jpeg'' \<or> includes_str (ftype file) ''jpg''
             then embedJpg lib (fbytes file)
             else if includes_str (ftype file) ''png''
             then embedPng lib (fbytes file)
             else Inl (''Unsupported image format: '' @ ftype file))
      in case embedded of
           Inl m \<Rightarrow> Inl m
         | Inr None \<Rightarrow> Inl ''Failed to embed image''
         | Inr (Some img) \<Rightarrow> Inr img)"

text \<open>\<^verbatim>\<open>embedImageInPage\<close>. The page is given by what has been drawn on it so far, and
  the result is what is drawn on it afterwards. Every error of the body is thrown again
  as a \<^verbatim>\<open>PDFError\<close> that carries the file name.\<close>

definition embedImageInPage ::
  "pdflib \<Rightarrow> drawop list \<Rightarrow> File \<Rightarrow> dimensions \<Rightarrow> PDFError + drawop list" where
  "embedImageInPage lib ops file d =
     (let body =
            (case decodeImage lib file of
               Inl m \<Rightarrow> Inl m
             | Inr img \<Rightarrow>
                 (case fitImage img d of
                    (x, y, width, height) \<Rightarrow>
                      if enabled (d_border d)
                      then
                        (let borderWidth = b_width (d_border d)
                         in case borderColor (color (d_border d)) of
                              None \<Rightarrow> Inl (nullMapMessage lib)
                            | Some (r, g, b) \<Rightarrow>
                                (case rgb lib r g b of
                                   Inl m \<Rightarrow> Inl m
                                 | Inr c \<Rightarrow>
                                     Inr (ops @
                                          [DrawRectangle (fsub x borderWidth)
                                             (fsub y borderWidth)
                                             (fadd width (fmul borderWidth 2))
                                             (fadd height (fmul borderWidth 2))
                                             borderWidth c,
                                           DrawImage img x y width height])))
                      else Inr (ops @ [DrawImage img x y width height])))
      in case body of
           Inl m \<Rightarrow> Inl (PDFError (''Failed to embed image: '' @ m) (Some (fname file)))
         | Inr ops' \<Rightarrow> Inr ops')"

subsection \<open>Pages of images\<close>

text \<open>\<^verbatim>\<open>array.slice(i, j)\<close> for \<open>0 \<le> i \<le> j\<close>.\<close>

definition slice_list :: "'a list \<Rightarrow> nat \<Rightarrow> nat \<Rightarrow> 'a list" where
  "slice_list xs i j = take (j - i) (drop i xs)"

text \<open>The loop of \<^verbatim>\<open>chunkArray\<close>. With a step of \<open>0\<close> it never leaves a non-empty
  array, so it is a partial function.\<close>

partial_function (option) chunkLoop ::
  "'a list \<Rightarrow> nat \<Rightarrow> nat \<Rightarrow> 'a list list \<Rightarrow> 'a list list option" where
  "chunkLoop array sz i chunks =
     (if i < length array
      then chunkLoop array sz (i + sz) (chunks @ [slice_list array i (i + sz)])
      else Some chunks)"

declare chunkLoop.simps [code]

definition chunkArray :: "'a list \<Rightarrow> nat \<Rightarrow> 'a list list option" where
  "chunkArray array sz = chunkLoop array sz 0 []"

text \<open>The inner loop of \<^verbatim>\<open>addImagesToDocument\<close> (lines 127 to 142) from index \<open>i\<close> on:
  the files left in the group are embedded one after the other, and the first error
  ends the loop.\<close>

fun embedGroup ::
  "pdflib \<Rightarrow> real \<Rightarrow> real \<Rightarrow> PDFOptions \<Rightarrow> nat \<Rightarrow> File list \<Rightarrow> drawop list
   \<Rightarrow> PDFError + drawop list" where
  "embedGroup lib width height options i [] ops = Inr ops"
| "embedGroup lib width height options i (file # rest) ops =
     (case embedImageInPage lib ops file (slotDimensions width height options i) of
        Inl e \<Rightarrow> Inl e
      | Inr ops' \<Rightarrow> embedGroup lib width height options (i + 1) rest ops')"

definition pageSize :: "pdflib \<Rightarrow> PDFOptions \<Rightarrow> real \<times> real" where
  "pageSize lib options =
     (if orientation options = Landscape then (snd (A4 lib), fst (A4 lib)) else A4 lib)"

text \<open>The body of the \<^verbatim>\<open>try\<close> of lines 114 to 142 for one group: the new page with all
  the images of the group drawn. The program adds the empty page to the document first
  and draws on it afterwards; nothing reads the document in between, and an error
  discards the document, so the model adds the finished page.\<close>

definition groupPage :: "pdflib \<Rightarrow> PDFOptions \<Rightarrow> File list \<Rightarrow> PDFError + page" where
  "groupPage lib options grp =
     (case pageSize lib options of
        (width, height) \<Rightarrow>
          (case embedGroup lib width height options 0 grp [] of
             Inl e \<Rightarrow> Inl e
           | Inr ops \<Rightarrow> Inr (NewPage (width, height) ops)))"

text \<open>The loop over the groups (lines 113 to 146). The \<^verbatim>\<open>catch\<close> of line 143 replaces
  whatever was thrown by one fixed error without a file name.\<close>

fun addGroups ::
  "pdflib \<Rightarrow> PDFOptions \<Rightarrow> page list \<Rightarrow> File list list \<Rightarrow> PDFError + page list" where
  "addGroups lib options pdfDoc [] = Inr pdfDoc"
| "addGroups lib options pdfDoc (grp # rest) =
     (case groupPage lib options grp of
        Inl e \<Rightarrow> Inl (PDFError ''Only jpg, pdf, png are allowed'' None)
      | Inr p \<Rightarrow> addGroups lib options (pdfDoc @ [p]) rest)"

text \<open>\<^verbatim>\<open>addImagesToDocument\<close>: \<open>None\<close> when \<^verbatim>\<open>chunkArray\<close> does not return.\<close>

definition addImagesToDocument ::
  "pdflib \<Rightarrow> page list \<Rightarrow> File list \<Rightarrow> PDFOptions \<Rightarrow> (PDFError + page list) option" where
  "addImagesToDocument lib pdfDoc images options =
     (case chunkArray images (ipp_num (imagesPerPage options)) of
        None \<Rightarrow> None
      | Some imageGroups \<Rightarrow> Some (addGroups lib options pdfDoc imageGroups))"

subsection \<open>Pages of documents, and the whole merge\<close>

text \<open>\<^verbatim>\<open>addPDFToPDF\<close>: the file is loaded, the pages at \<^verbatim>\<open>getPageIndices()\<close> are copied
  and added in that order. The arguments are objects, so the test of line 212 never
  throws.\<close>

definition addPDFToPDF :: "pdflib \<Rightarrow> page list \<Rightarrow> File \<Rightarrow> PDFError + page list" where
  "addPDFToPDF lib pdfDoc file =
     (let wrapped = (\<lambda>m. PDFError (''Failed to merge PDF: '' @ orUnknown m)
                                  (Some (fname file)))
      in case load lib (fbytes file) of
           Inl m \<Rightarrow> Inl (wrapped m)
         | Inr existingPdf \<Rightarrow>
             (case copyFails lib existingPdf of
                Some m \<Rightarrow> Inl (wrapped m)
              | None \<Rightarrow>
                  (let copiedPages =
                         map (\<lambda>i. CopiedPage (existingPdf ! i)) [0 ..< length existingPdf]
                   in if copiedPages = []
                      then Inl (PDFError ''PDF document has no pages'' (Some (fname file)))
                      else Inr (pdfDoc @ copiedPages))))"

text \<open>The loop of lines 79 to 89. \<^verbatim>\<open>addPDFToPDF\<close> throws nothing but a \<^verbatim>\<open>PDFError\<close>,
  which line 83 throws again as it is.\<close>

fun addPDFs :: "pdflib \<Rightarrow> page list \<Rightarrow> File list \<Rightarrow> PDFError + page list" where
  "addPDFs lib pdfDoc [] = Inr pdfDoc"
| "addPDFs lib pdfDoc (file # rest) =
     (case addPDFToPDF lib pdfDoc file of
        Inl e \<Rightarrow> Inl e
      | Inr pdfDoc' \<Rightarrow> addPDFs lib pdfDoc' rest)"

text \<open>The \<^verbatim>\<open>forEach\<close> of lines 67 to 73: the images and the PDF files, each in the order of
  the input.\<close>

fun classify :: "File list \<Rightarrow> File list \<times> File list" where
  "classify [] = ([], [])"
| "classify (file # rest) =
     (case classify rest of
        (images, pdfs) \<Rightarrow>
          if startsWith (ftype file) ''image/'' then (file # images, pdfs)
          else if ftype file = ''application/pdf'' then (images, file # pdfs)
          else (images, pdfs))"

text \<open>\<^verbatim>\<open>createPDF\<close>. The bytes that \<^verbatim>\<open>save\<close> returns are represented by the pages they
  serialise. \<open>None\<close>: the call never returns.\<close>

definition createPDF :: "pdflib \<Rightarrow> File list \<Rightarrow> PDFOptions \<Rightarrow> (PDFError + page list) option" where
  "createPDF lib files options =
     (if files = [] then Some (Inl (PDFError ''No files provided'' None))
      else if createFails lib then Some (Inl (PDFError ''Failed to create PDF document'' None))
      else
        (case classify files of
           (images, pdfs) \<Rightarrow>
             (case (if images \<noteq> [] then addImagesToDocument lib [] images options
                    else Some (Inr [])) of
                None \<Rightarrow> None
              | Some (Inl e) \<Rightarrow> Some (Inl e)
              | Some (Inr pdfDoc) \<Rightarrow>
                  (case addPDFs lib pdfDoc pdfs of
                     Inl e \<Rightarrow> Some (Inl e)
                   | Inr pdfDoc' \<Rightarrow>
                       (case saveFails lib pdfDoc' of
                          Some m \<Rightarrow>
                            Some (Inl (PDFError (''Failed to save PDF document: '' @ orUnknown m)
                                         None))
                        | None \<Rightarrow> Some (Inr pdfDoc'))))))"

subsection \<open>The layout controls and the state of the application\<close>

datatype side = Top | Right | Bottom | Left

text \<open>\<^verbatim>\<open>{ ...options.margins, [side]: value }\<close>.\<close>

fun setMargin :: "margins \<Rightarrow> side \<Rightarrow> real \<Rightarrow> margins" where
  "setMargin m Top v = m\<lparr>m_top := v\<rparr>"
| "setMargin m Right v = m\<lparr>m_right := v\<rparr>"
| "setMargin m Bottom v = m\<lparr>m_bottom := v\<rparr>"
| "setMargin m Left v = m\<lparr>m_left := v\<rparr>"

text \<open>What the user does to the controls of \<^verbatim>\<open>ImageLayout\<close>. A number field hands its
  handler \<^verbatim>\<open>Number(e.target.value)\<close>; the value of an \<^verbatim>\<open>input\<close> of type \<^verbatim>\<open>number\<close> is a
  valid number or the empty string, which reads as \<open>0\<close>, so the argument is a real
  number.\<close>

datatype edit =
    ImagesPerPageClick imagesPerPage
  | OrientationClick orientation
  | MarginInput side real
  | BorderToggle bool
  | BorderWidthInput real
  | BorderColorInput string

text \<open>The handlers of \<^verbatim>\<open>ImageLayout\<close>, each calling \<^verbatim>\<open>updateOptions\<close>, that is
  \<^verbatim>\<open>onChange({ ...options, ...updates })\<close>: the options that \<^verbatim>\<open>onChange\<close> receives.\<close>

fun updateOptions :: "PDFOptions \<Rightarrow> edit \<Rightarrow> PDFOptions" where
  "updateOptions options (ImagesPerPageClick v) = options\<lparr>imagesPerPage := v\<rparr>"
| "updateOptions options (OrientationClick v) = options\<lparr>orientation := v\<rparr>"
| "updateOptions options (MarginInput s v) =
     (let value = max 0 (min 100 v)
      in options\<lparr>margins := setMargin (margins options) s value\<rparr>)"
| "updateOptions options (BorderToggle v) =
     options\<lparr>border := (border options)\<lparr>enabled := v\<rparr>\<rparr>"
| "updateOptions options (BorderWidthInput v) =
     (let value = max 0.1 (min 10 v)
      in options\<lparr>border := (border options)\<lparr>b_width := value\<rparr>\<rparr>)"
| "updateOptions options (BorderColorInput v) =
     options\<lparr>border := (border options)\<lparr>color := v\<rparr>\<rparr>"

text \<open>The state of \<^verbatim>\<open>App\<close>.\<close>

record AppState =
  files :: "File list"
  isProcessing :: bool
  layoutOptions :: PDFOptions

definition initialState :: AppState where
  "initialState =
     \<lparr>files = [], isProcessing = False,
      layoutOptions =
        \<lparr>imagesPerPage = One,
         margins = \<lparr>m_top = 20, m_right = 20, m_bottom = 20, m_left = 20\<rparr>,
         border = \<lparr>enabled = False, b_width = 1, color = ''#000000''\<rparr>,
         orientation = Portrait\<rparr>\<rparr>"

text \<open>\<^verbatim>\<open>handleFilesDrop\<close>: the first file that the validator rejects leaves the list as it
  was.\<close>

definition handleFilesDrop ::
  "(jsstring \<Rightarrow> jsstring) \<Rightarrow> AppState \<Rightarrow> File list \<Rightarrow> AppState" where
  "handleFilesDrop unicodeLower st newFiles =
     (if newFiles = [] then st
      else if list_ex (\<lambda>f. validateFile unicodeLower (Some f) \<noteq> None) newFiles then st
      else st\<lparr>files := files st @ newFiles\<rparr>)"

definition handleRemoveFile :: "AppState \<Rightarrow> nat \<Rightarrow> AppState" where
  "handleRemoveFile st index =
     st\<lparr>files := map fst (filter (\<lambda>(f, i). i \<noteq> index)
                                (zip (files st) [0 ..< length (files st)]))\<rparr>"

text \<open>\<^verbatim>\<open>createPDF\<close> of \<^verbatim>\<open>App\<close>: the merge is called with the files and the layout options
  of the state. A merge that returns clears the files on success; one that never returns
  leaves the processing flag set.\<close>

definition App_createPDF :: "pdflib \<Rightarrow> AppState \<Rightarrow> AppState" where
  "App_createPDF lib st =
     (if files st = [] then st
      else
        (case createPDF lib (files st) (layoutOptions st) of
           None \<Rightarrow> st\<lparr>isProcessing := True\<rparr>
         | Some (Inl e) \<Rightarrow> st\<lparr>isProcessing := False\<rparr>
         | Some (Inr pdfBytes) \<Rightarrow> st\<lparr>files := [], isProcessing := False\<rparr>))"

datatype event =
    FilesDrop "File list"
  | RemoveFile nat
  | LayoutChange edit
  | CreatePDFClick

text \<open>One event of the application, and a sequence of events from the initial state. The
  first two parameters are the environment: the Unicode lower-casing and the library.\<close>

fun step :: "(jsstring \<Rightarrow> jsstring) \<Rightarrow> pdflib \<Rightarrow> AppState \<Rightarrow> event \<Rightarrow> AppState" where
  "step unicodeLower lib st (FilesDrop newFiles) = handleFilesDrop unicodeLower st newFiles"
| "step unicodeLower lib st (RemoveFile index) = handleRemoveFile st index"
| "step unicodeLower lib st (LayoutChange e) =
     st\<lparr>layoutOptions := updateOptions (layoutOptions st) e\<rparr>"
| "step unicodeLower lib st CreatePDFClick = App_createPDF lib st"

definition run :: "(jsstring \<Rightarrow> jsstring) \<Rightarrow> pdflib \<Rightarrow> event list \<Rightarrow> AppState" where
  "run unicodeLower lib events = foldl (step unicodeLower lib) initialState events"

subsection \<open>Notions of the specification\<close>

text \<open>The declared ranges of the margins and of the border width.\<close>

definition marginInRange :: "real \<Rightarrow> bool" where
  "marginInRange v = (0 \<le> v \<and> v \<le> 100)"

definition optionsInRange :: "PDFOptions \<Rightarrow> bool" where
  "optionsInRange options =
     (marginInRange (m_top (margins options)) \<and> marginInRange (m_right (margins options))
      \<and> marginInRange (m_bottom (margins options)) \<and> marginInRange (m_left (margins options))
      \<and> 0.1 \<le> b_width (border options) \<and> b_width (border options) \<le> 10)"

text \<open>The images drawn on a page, in drawing order.\<close>

fun opImages :: "drawop \<Rightarrow> image list" where
  "opImages (DrawImage img x y w h) = [img]"
| "opImages (DrawRectangle x y w h bw c) = []"

fun drawnImages :: "page \<Rightarrow> image list" where
  "drawnImages (NewPage sz ops) = concat (map opImages ops)"
| "drawnImages (CopiedPage p) = []"

text \<open>A page shows a group of files: the images drawn on it are, in order, what the files
  of the group decode to.\<close>

definition pageShows :: "pdflib \<Rightarrow> page \<Rightarrow> File list \<Rightarrow> bool" where
  "pageShows lib p grp =
     (map Inr (drawnImages p) = map (decodeImage lib) grp)"

text \<open>The pages that a PDF file contributes: a copy of each page of the loaded document,
  first page first.\<close>

definition copiedPagesOf :: "pdflib \<Rightarrow> File \<Rightarrow> page list" where
  "copiedPagesOf lib file =
     (case load lib (fbytes file) of Inl m \<Rightarrow> [] | Inr ps \<Rightarrow> map CopiedPage ps)"

text \<open>A colour string with no two word characters in a row.\<close>

fun noWordPair :: "string \<Rightarrow> bool" where
  "noWordPair (a # b # rest) = (\<not> (isWordChar a \<and> isWordChar b) \<and> noWordPair (b # rest))"
| "noWordPair s = True"

text \<open>The consecutive chunks of a list: the first \<open>k\<close> elements, then the chunks of the
  rest.\<close>

fun chunksOf :: "nat \<Rightarrow> 'a list \<Rightarrow> 'a list list" where
  "chunksOf k xs = (if k = 0 \<or> xs = [] then [] else take k xs # chunksOf k (drop k xs))"

declare chunksOf.simps [simp del]

subsection \<open>Sample inputs\<close>

text \<open>A library for the examples. It decodes a one-byte content as an image named by
  that byte (a JPEG of 400 by 200, a PNG of 100 by 300) and rejects any other content; the
  files of the examples have ASCII names; it
  loads two documents, of two pages and of one page; its colour constructor accepts
  numbers from \<open>0\<close> to \<open>1\<close>.\<close>

definition exampleLib :: pdflib where
  "exampleLib =
     \<lparr>createFails = False,
      embedJpg = (\<lambda>b. if length b = 1
                      then Inr (Some \<lparr>iref = unat (hd b), iwidth = 400, iheight = 200\<rparr>)
                      else Inl ''SOI not found in JPEG''),
      embedPng = (\<lambda>b. if length b = 1
                      then Inr (Some \<lparr>iref = unat (hd b), iwidth = 100, iheight = 300\<rparr>)
                      else Inl ''The input is not a PNG file!''),
      load = (\<lambda>b. if b = [80] then Inr [''P-page1'', ''P-page2'']
                  else if b = [81] then Inr [''Q-page1'']
                  else Inl ''No PDF header found''),
      copyFails = (\<lambda>src. None),
      saveFails = (\<lambda>doc. None),
      rgb = (\<lambda>r g b. case (r, g, b) of
                        (Num x, Num y, Num z) \<Rightarrow>
                          if 0 \<le> x \<and> x \<le> 1 \<and> 0 \<le> y \<and> y \<le> 1 \<and> 0 \<le> z \<and> z \<le> 1
                          then Inr (r, g, b) else Inl ''colour out of range''
                      | _ \<Rightarrow> Inl ''colour is not a number''),
      A4 = (round64 595.28, round64 841.89),
      nullMapMessage = ''Cannot read properties of null''\<rparr>"

text \<open>A library that decodes every JPEG as a photograph of 2619 by 1588, and the options
  of a landscape page with one image and the margins 3, 10, 100 and 20.\<close>

definition photoLib :: pdflib where
  "photoLib =
     exampleLib\<lparr>embedJpg := (\<lambda>b. Inr (Some \<lparr>iref = 0, iwidth = 2619, iheight = 1588\<rparr>))\<rparr>"

definition photoOptions :: PDFOptions where
  "photoOptions =
     \<lparr>imagesPerPage = One,
      margins = \<lparr>m_top = 3, m_right = 10, m_bottom = 100, m_left = 20\<rparr>,
      border = \<lparr>enabled = False, b_width = 1, color = ''#000000''\<rparr>,
      orientation = Landscape\<rparr>"

text \<open>A lower-casing for the examples: it knows the ASCII letters and the capital I with
  a dot above (U+0130, the code unit 304), whose lower case is \<open>i\<close> and a combining dot
  (U+0069 U+0307, the code units 105 and 775).\<close>

definition exampleLower :: "jsstring \<Rightarrow> jsstring" where
  "exampleLower s = concat (map (\<lambda>u. if u = 304 then [105, 775] else [toLowerUnit u]) s)"

definition jpegFile :: "string \<Rightarrow> bytes \<Rightarrow> File" where
  "jpegFile name content =
     \<lparr>fname = ascii name, ftype = ''image/jpeg'', fsize = length content, fbytes = content\<rparr>"

definition pngFile :: "string \<Rightarrow> bytes \<Rightarrow> File" where
  "pngFile name content =
     \<lparr>fname = ascii name, ftype = ''image/png'', fsize = length content, fbytes = content\<rparr>"

definition pdfFile :: "string \<Rightarrow> bytes \<Rightarrow> File" where
  "pdfFile name content =
     \<lparr>fname = ascii name, ftype = ''application/pdf'', fsize = length content, fbytes = content\<rparr>"

definition defaultOptions :: PDFOptions where
  "defaultOptions = layoutOptions initialState"

section \<open>The validator\<close>





lemma ascii_append: "ascii (s @ t) = ascii s @ ascii t"
  by (simp add: ascii_def)






lemma ascii_scan: "ascii ''scan.JPG'' = [115, 99, 97, 110, 46, 74, 80, 71]"
  by (simp add: ascii_def codeUnit_def)









text \<open>
  Claim C9, as the program has it. The validator answers with the message
  \<^verbatim>\<open>File <name> is too large. Maximum size is 100MB\<close> exactly when the size of the file
  exceeds \<open>100 * 1024 * 1024\<close> bytes, and a file at or below the limit whose declared type
  and extension are supported is accepted.
\<close>

theorem validateFile_too_large:
  "(validateFile unicodeLower (Some f)
      = Some (ascii ''File '' @ fname f @ ascii '' is too large. Maximum size is 100MB'')
      \<longleftrightarrow> fsize f > 100 * 1024 * 1024)
   \<and> (fsize f \<le> 100 * 1024 * 1024
        \<and> ftype f \<in> {''image/jpeg'', ''image/jpg'', ''image/png'', ''application/pdf''}
        \<and> fileExtension unicodeLower (fname f)
            \<in> ascii ` {''.pdf'', ''.jpg'', ''.jpeg'', ''.png'', ''.jpe'', ''.jif'', ''.jfif''}
      \<longrightarrow> validateFile unicodeLower (Some f) = None)"
proof -
  have ne: "ascii '' is not supported. Please use PDF, JPG, JPEG, or PNG files''
            \<noteq> ascii '' is too large. Maximum size is 100MB''"
    by (simp add: ascii_def codeUnit_def)
  show ?thesis
    using ne
    by (simp add: validateFile_def MAX_FILE_SIZE_def supportedTypes_def
          supportedExtensions_def)
qed

lemma fileExtension_shot: "fileExtension exampleLower (ascii ''shot.png'') = ascii ''.png''"
  by (simp add: fileExtension_def slice_from_def toLowerCase_def isAscii_def toLowerUnit_def
        ascii_def codeUnit_def)

text \<open>A file of 101 MiB gets the message, and a 1 KiB \<^verbatim>\<open>shot.png\<close> declared
  \<^verbatim>\<open>image/png\<close> is accepted.\<close>

theorem validateFile_too_large_witness:
  "validateFile exampleLower
     (Some \<lparr>fname = ascii ''huge.png'', ftype = ''image/png'', fsize = 101 * 1024 * 1024,
            fbytes = []\<rparr>)
     = Some (ascii ''File huge.png is too large. Maximum size is 100MB'')
   \<and> validateFile exampleLower
         (Some \<lparr>fname = ascii ''shot.png'', ftype = ''image/png'', fsize = 1024, fbytes = []\<rparr>)
       = None"
proof -
  let ?big = "\<lparr>fname = ascii ''huge.png'', ftype = ''image/png'', fsize = 101 * 1024 * 1024,
               fbytes = []\<rparr>"
  let ?ok = "\<lparr>fname = ascii ''shot.png'', ftype = ''image/png'', fsize = 1024, fbytes = []\<rparr>"
  have "validateFile exampleLower (Some ?big)
             = Some (ascii ''File '' @ fname ?big
                     @ ascii '' is too large. Maximum size is 100MB'')"
    using validateFile_too_large [of exampleLower ?big, THEN conjunct1] by simp
  then have a: "validateFile exampleLower (Some ?big)
             = Some (ascii ''File huge.png is too large. Maximum size is 100MB'')"
    by (simp add: ascii_def)
  have b: "validateFile exampleLower (Some ?ok) = None"
    using validateFile_too_large [of exampleLower ?ok, THEN conjunct2] fileExtension_shot
    by simp
  from a b show ?thesis by (intro conjI)
qed

text \<open>Against claim C9 as it is written: the message of the program starts with the word
  \<^verbatim>\<open>File\<close>, so it is not the text \<^verbatim>\<open><name> is too large. Maximum size is 100MB\<close> of the
  claim.\<close>

theorem validateFile_too_large_message_counterexample:
  "validateFile exampleLower
     (Some \<lparr>fname = ascii ''a.png'', ftype = ''image/png'', fsize = 104857601, fbytes = []\<rparr>)
     = Some (ascii ''File a.png is too large. Maximum size is 100MB'')
   \<and> validateFile exampleLower
         (Some \<lparr>fname = ascii ''a.png'', ftype = ''image/png'', fsize = 104857601, fbytes = []\<rparr>)
       \<noteq> Some (ascii ''a.png is too large. Maximum size is 100MB'')"
  by (simp add: validateFile_def MAX_FILE_SIZE_def ascii_def codeUnit_def)

section \<open>Rounding to doubles\<close>

lemma pow2_powr: "pow2 e = 2 powr real_of_int e"
proof (cases "0 \<le> e")
  case True
  then have "2 powr real_of_int e = 2 powr real (nat e)" by simp
  also have "\<dots> = 2 ^ nat e" by (simp add: powr_realpow)
  finally show ?thesis using True by (simp add: pow2_def)
next
  case False
  define n where "n = nat (- e)"
  from False have e: "e = - int n" by (simp add: n_def)
  have "2 powr real_of_int (- int n) = 1 / 2 powr real n"
    by (simp add: powr_minus_divide)
  also have "\<dots> = 1 / 2 ^ n" by (simp add: powr_realpow)
  finally have "2 powr real_of_int e = 1 / 2 ^ n" unfolding e .
  moreover have "pow2 e = 1 / 2 ^ n" using False by (simp add: pow2_def n_def)
  ultimately show ?thesis by simp
qed

lemma pow2_int: "pow2 (int n) = 2 ^ n"
  by (simp add: pow2_def)

lemma pow2_neg: "pow2 (- int n) = 1 / 2 ^ n"
proof (cases "n = 0")
  case True
  then show ?thesis by (simp add: pow2_def)
next
  case False
  then have "\<not> 0 \<le> - int n" by simp
  moreover have "nat (- (- int n)) = n" by simp
  ultimately show ?thesis by (simp only: pow2_def if_False)
qed

lemma pow2_pos: "0 < pow2 e"
  by (simp add: pow2_powr)

lemma pow2_add: "pow2 (a + b) = pow2 a * pow2 b"
  by (simp add: pow2_powr powr_add)

lemma pow2_less_iff: "pow2 a < pow2 b \<longleftrightarrow> a < b"
  by (simp add: pow2_powr)

lemma rne_error: "\<bar>of_int (rne r) - r\<bar> \<le> 1 / 2"
proof -
  have "of_int \<lfloor>r\<rfloor> \<le> r" and "r < of_int \<lfloor>r\<rfloor> + 1" by linarith+
  then show ?thesis
    by (auto simp: rne_def Let_def)
qed

lemma nat_less_pow_real: "(n::nat) < 2 ^ k \<Longrightarrow> real n + 1 \<le> 2 ^ k"
proof -
  assume "n < 2 ^ k"
  then have "Suc n \<le> 2 ^ k" by (rule Suc_leI)
  then have "real (Suc n) \<le> real ((2::nat) ^ k)" by (simp only: of_nat_le_iff)
  then show ?thesis by simp
qed

lemma nat_pow_le_real: "2 ^ k \<le> (n::nat) \<Longrightarrow> 2 ^ k \<le> real n"
proof -
  assume "2 ^ k \<le> n"
  then have "real ((2::nat) ^ k) \<le> real n" by (simp only: of_nat_le_iff)
  then show ?thesis by simp
qed

lemma expo_ge1:
  assumes "1 \<le> \<bar>x\<bar>"
  shows "\<exists>k. expo x = int k \<and> 2 ^ k \<le> \<bar>x\<bar> \<and> \<bar>x\<bar> < 2 ^ (k + 1)"
proof -
  define n where "n = nat \<lfloor>\<bar>x\<bar>\<rfloor>"
  define k where "k = floorlog 2 n"
  from assms have n: "0 < n" by (simp add: n_def)
  from assms have nx: "real n \<le> \<bar>x\<bar>" and xn: "\<bar>x\<bar> < real n + 1"
    unfolding n_def by linarith+
  from floorlog_bounds [OF n, of 2] have lo: "2 ^ (k - 1) \<le> n" and hi: "n < 2 ^ k"
    by (simp_all add: k_def)
  from n have k: "0 < k" by (simp add: k_def floorlog_def)
  have e: "expo x = int (k - 1)" using assms k by (simp add: expo_def n_def k_def)
  from nat_pow_le_real [OF lo] nx have 1: "2 ^ (k - 1) \<le> \<bar>x\<bar>" by linarith
  from nat_less_pow_real [OF hi] xn have "\<bar>x\<bar> < 2 ^ k" by linarith
  with k have 2: "\<bar>x\<bar> < 2 ^ (k - 1 + 1)" by simp
  from e 1 2 show ?thesis by blast
qed

lemma expo_lt1:
  assumes "x \<noteq> 0" and "\<not> 1 \<le> \<bar>x\<bar>"
  shows "\<exists>k. 0 < k \<and> expo x = - int k \<and> 1 / 2 ^ k \<le> \<bar>x\<bar> \<and> \<bar>x\<bar> < 1 / 2 ^ (k - 1)"
proof -
  define y where "y = 1 / \<bar>x\<bar>"
  define m where "m = nat (\<lceil>y\<rceil> - 1)"
  define k where "k = floorlog 2 m"
  from assms have xp: "0 < \<bar>x\<bar>" and x1: "\<bar>x\<bar> < 1" by simp_all
  then have y: "1 < y" by (simp add: y_def)
  then have c: "2 \<le> \<lceil>y\<rceil>" by linarith
  then have m: "0 < m" by (simp add: m_def)
  from c have my: "real m = of_int \<lceil>y\<rceil> - 1" by (simp add: m_def)
  have y1: "y \<le> real m + 1" and y2: "real m < y" using my by linarith+
  from floorlog_bounds [OF m, of 2] have lo: "2 ^ (k - 1) \<le> m" and hi: "m < 2 ^ k"
    by (simp_all add: k_def)
  from m have k: "0 < k" by (simp add: k_def floorlog_def)
  have e: "expo x = - int k" using assms by (simp add: expo_def k_def m_def y_def)
  from nat_less_pow_real [OF hi] y1 have "y \<le> 2 ^ k" by linarith
  then have "1 / \<bar>x\<bar> \<le> 2 ^ k" by (simp add: y_def)
  then have 1: "1 / 2 ^ k \<le> \<bar>x\<bar>" using xp by (simp add: field_simps)
  from nat_pow_le_real [OF lo] y2 have "2 ^ (k - 1) < y" by linarith
  then have "2 ^ (k - 1) < 1 / \<bar>x\<bar>" by (simp add: y_def)
  then have 2: "\<bar>x\<bar> < 1 / 2 ^ (k - 1)" using xp by (simp add: field_simps)
  from k e 1 2 show ?thesis by blast
qed

lemma expo_lower: "x \<noteq> 0 \<Longrightarrow> pow2 (expo x) \<le> \<bar>x\<bar>"
proof (cases "1 \<le> \<bar>x\<bar>")
  case True
  from expo_ge1 [OF True] obtain k where "expo x = int k" and "2 ^ k \<le> \<bar>x\<bar>" by blast
  then show ?thesis by (simp only: pow2_int)
next
  case False
  assume "x \<noteq> 0"
  from expo_lt1 [OF this False] obtain k where "0 < k" and "expo x = - int k"
    and "1 / 2 ^ k \<le> \<bar>x\<bar>" by blast
  then show ?thesis by (simp only: pow2_neg)
qed

lemma expo_upper: "x \<noteq> 0 \<Longrightarrow> \<bar>x\<bar> < pow2 (expo x + 1)"
proof (cases "1 \<le> \<bar>x\<bar>")
  case True
  from expo_ge1 [OF True] obtain k where e: "expo x = int k" and b: "\<bar>x\<bar> < 2 ^ (k + 1)"
    by blast
  from e have "expo x + 1 = int (k + 1)" by simp
  then have "pow2 (expo x + 1) = 2 ^ (k + 1)" by (simp only: pow2_int)
  with b show ?thesis by simp
next
  case False
  assume "x \<noteq> 0"
  from expo_lt1 [OF this False] obtain k where k: "0 < k" and e: "expo x = - int k"
    and b: "\<bar>x\<bar> < 1 / 2 ^ (k - 1)" by blast
  from k e have "expo x + 1 = - int (k - 1)" by simp
  then have "pow2 (expo x + 1) = 1 / 2 ^ (k - 1)" by (simp only: pow2_neg)
  with b show ?thesis by simp
qed

lemma round64_error:
  assumes "normal z"
  shows "\<bar>round64 z - z\<bar> \<le> \<bar>z\<bar> / 2 ^ 53"
proof -
  from assms have lo: "pow2 (- 1022) \<le> \<bar>z\<bar>" by (simp add: normal_def)
  with pow2_pos [of "- 1022"] have nz: "z \<noteq> 0" by auto
  from lo expo_upper [OF nz] have "pow2 (- 1022) < pow2 (expo z + 1)" by linarith
  then have e: "- 1022 \<le> expo z" by (simp add: pow2_less_iff)
  define q where "q = pow2 (expo z - 52)"
  have qpos: "0 < q" unfolding q_def by (rule pow2_pos)
  from e nz have r: "round64 z = of_int (rne (z / q)) * q"
    by (simp add: round64_def Let_def q_def max_def)
  have "\<bar>of_int (rne (z / q)) * q - z\<bar> = \<bar>of_int (rne (z / q)) - z / q\<bar> * q"
    using qpos by (simp add: field_simps abs_mult)
  also have "\<dots> \<le> 1 / 2 * q"
    using rne_error [of "z / q"] qpos by (simp add: mult_right_mono)
  finally have b: "\<bar>round64 z - z\<bar> \<le> q / 2" using r by simp
  have "pow2 (expo z) = pow2 (expo z - 52) * pow2 52"
    using pow2_add [of "expo z - 52" 52] by simp
  then have "q = pow2 (expo z) / 2 ^ 52" by (simp add: q_def pow2_def)
  then have "q / 2 = pow2 (expo z) / 2 ^ 53" by simp
  also have "\<dots> \<le> \<bar>z\<bar> / 2 ^ 53"
    using expo_lower [OF nz] by (simp add: divide_right_mono)
  finally show ?thesis using b by linarith
qed

text \<open>A normal result is rounded with a relative error of at most \<open>2 ^ -53\<close>.\<close>

lemma round64_relative:
  assumes "normal z"
  shows "\<exists>e. \<bar>e\<bar> \<le> 1 / 2 ^ 53 \<and> round64 z = z * (1 + e)"
proof -
  from assms have "pow2 (- 1022) \<le> \<bar>z\<bar>" by (simp add: normal_def)
  with pow2_pos [of "- 1022"] have nz: "z \<noteq> 0" by auto
  define e where "e = (round64 z - z) / z"
  have "\<bar>e\<bar> = \<bar>round64 z - z\<bar> / \<bar>z\<bar>" by (simp add: e_def)
  also have "\<dots> \<le> (\<bar>z\<bar> / 2 ^ 53) / \<bar>z\<bar>"
    using round64_error [OF assms] nz by (simp add: divide_right_mono)
  also have "\<dots> = 1 / 2 ^ 53" using nz by simp
  finally have "\<bar>e\<bar> \<le> 1 / 2 ^ 53" .
  moreover have "round64 z = z * (1 + e)" using nz by (simp add: e_def field_simps)
  ultimately show ?thesis by blast
qed

text \<open>Two relative errors of at most \<open>u\<close> compose to one of at most \<open>3 * u\<close>.\<close>

lemma rel_mult:
  fixes a b u :: real
  assumes "\<bar>a\<bar> \<le> u" and "\<bar>b\<bar> \<le> u" and "u \<le> 1 / 8"
  shows "\<bar>(1 + a) * (1 + b) - 1\<bar> \<le> 3 * u"
proof -
  from assms have u0: "0 \<le> u" by linarith
  have "\<bar>a * b\<bar> \<le> u * u" using assms(1,2) by (simp add: abs_mult mult_mono)
  also have "u * u \<le> u * 1" using u0 assms(3) by (intro mult_left_mono) linarith+
  finally have ab: "\<bar>a * b\<bar> \<le> u" by simp
  have "(1 + a) * (1 + b) - 1 = a + b + a * b" by (simp add: algebra_simps)
  then have "\<bar>(1 + a) * (1 + b) - 1\<bar> \<le> \<bar>a\<bar> + \<bar>b\<bar> + \<bar>a * b\<bar>" by linarith
  with assms(1,2) ab show ?thesis by linarith
qed

lemma rel_div:
  fixes a b u :: real
  assumes "\<bar>a\<bar> \<le> u" and "\<bar>b\<bar> \<le> u" and "u \<le> 1 / 8"
  shows "\<bar>(1 + a) / (1 + b) - 1\<bar> \<le> 3 * u"
proof -
  from assms have u0: "0 \<le> u" by linarith
  from assms have bp: "7 / 8 \<le> 1 + b" by linarith
  then have bpos: "0 < 1 + b" by linarith
  have "(1 + a) / (1 + b) - 1 = (a - b) / (1 + b)" using bpos by (simp add: field_simps)
  then have "\<bar>(1 + a) / (1 + b) - 1\<bar> = \<bar>a - b\<bar> / (1 + b)" using bpos by simp
  also have "\<dots> \<le> (2 * u) / (1 + b)"
    using assms(1,2) bpos by (intro divide_right_mono) linarith+
  also have "\<dots> \<le> (2 * u) / (7 / 8)"
    using bp u0 by (intro divide_left_mono) (simp_all add: mult_pos_pos)
  also have "\<dots> \<le> 3 * u" using u0 by simp
  finally show ?thesis .
qed

text \<open>The rules that evaluate an operation on two given doubles.\<close>

lemmas fl_eval = fadd_def fsub_def fmul_def fdiv_def round64_def expo_def rne_def pow2_def
  compute_floorlog Let_def

section \<open>The slot of an image\<close>

lemma floor_row: "nat \<lfloor>real i / real c\<rfloor> = i div c"
  by (simp add: floor_divide_of_nat_eq)

text \<open>
  Claim C4. For every page size, margins, number of images per page and index \<open>i\<close>, the
  rectangle that \<^verbatim>\<open>addImagesToDocument\<close> hands to \<^verbatim>\<open>embedImageInPage\<close> is the one of the
  formulas, each operation being the operation of the program on doubles: \<open>cols\<close> is 2
  for four images per page and 1 otherwise, \<open>rows\<close> is 1 for one image per page and 2
  otherwise (so the grid has as many cells as images per page), the slot width and height
  are the content width and height less the gutters, divided by \<open>cols\<close> and \<open>rows\<close>, and
  with \<open>row = i div cols\<close> and \<open>col = i mod cols\<close> the position is as stated.
\<close>

theorem slotDimensions_formulas:
  "(let m = margins options;
        k = ipp_num (imagesPerPage options);
        cols = (if k = 4 then 2 else 1);
        rows = (if k = 1 then 1 else 2);
        slotWidth =
          fdiv (fsub (fsub (fsub pageWidth (m_left m)) (m_right m))
                  (fmul (real cols - 1) (m_right m)))
            (real cols);
        slotHeight =
          fdiv (fsub (fsub (fsub pageHeight (m_top m)) (m_bottom m))
                  (fmul (real rows - 1) (m_bottom m)))
            (real rows);
        row = i div cols;
        col = i mod cols
    in cols * rows = k
       \<and> slotDimensions pageWidth pageHeight options i =
           \<lparr>d_x = fadd (m_left m) (fmul (real col) (fadd slotWidth (m_right m))),
            d_y = fsub (fsub (fsub pageHeight (m_top m)) (fmul (real row + 1) slotHeight))
                    (fmul (real row) (m_bottom m)),
            d_width = slotWidth, d_height = slotHeight, d_border = border options\<rparr>)"
  by (cases "imagesPerPage options") (simp_all add: slotDimensions_def Let_def floor_row)

section \<open>The fitted box\<close>

lemma unit_roundoff: "(1::real) / 2 ^ 53 \<le> 1 / 8"
  by simp

lemma rel_pos: "\<bar>e\<bar> \<le> 1 / 2 ^ 53 \<Longrightarrow> (0::real) < 1 + e"
proof -
  assume "\<bar>e\<bar> \<le> 1 / 2 ^ 53"
  with unit_roundoff have "\<bar>e\<bar> \<le> 1 / 8" by linarith
  then show ?thesis by linarith
qed

lemma rel_upper:
  fixes v k :: real
  assumes "0 < v" and "\<bar>k - 1\<bar> \<le> 3 / 2 ^ 53"
  shows "v * k \<le> (1 + 3 / 2 ^ 53) * v"
proof -
  from assms(2) have "k \<le> 1 + 3 / 2 ^ 53" by linarith
  with assms(1) have "v * k \<le> v * (1 + 3 / 2 ^ 53)" by (intro mult_left_mono) linarith+
  then show ?thesis by (simp add: mult.commute)
qed

lemma rel_ratio:
  fixes r k :: real
  assumes "0 < r" and "\<bar>k - 1\<bar> \<le> 3 / 2 ^ 53"
  shows "\<bar>r * k - r\<bar> \<le> 3 / 2 ^ 53 * r"
proof -
  have "r * k - r = r * (k - 1)" by (simp add: algebra_simps)
  then have "\<bar>r * k - r\<bar> = r * \<bar>k - 1\<bar>" using assms(1) by (simp add: abs_mult)
  also have "\<dots> \<le> r * (3 / 2 ^ 53)" using assms by (intro mult_left_mono) linarith+
  finally show ?thesis by (simp add: mult.commute)
qed

lemma fitImage_wide:
  fixes r s a t dw dh e1 e2 e3 :: real
  assumes pos: "0 < r" "0 < dw" "0 < dh"
    and s: "s = dw / dh"
    and a: "a = r * (1 + e1)" and e1: "\<bar>e1\<bar> \<le> 1 / 2 ^ 53"
    and t: "t = s * (1 + e2)" and e2: "\<bar>e2\<bar> \<le> 1 / 2 ^ 53"
    and w: "w = dh * a * (1 + e3)" and e3: "\<bar>e3\<bar> \<le> 1 / 2 ^ 53"
    and lt: "a < t"
  shows "\<bar>w / dh - r\<bar> \<le> 3 / 2 ^ 53 * r \<and> w \<le> (1 + 3 / 2 ^ 53) * dw"
proof -
  have k1: "\<bar>(1 + e1) * (1 + e3) - 1\<bar> \<le> 3 / 2 ^ 53"
    using rel_mult [OF e1 e3 unit_roundoff] by simp
  have "w / dh = r * ((1 + e1) * (1 + e3))"
    using pos(3) by (simp add: w a)
  with rel_ratio [OF pos(1) k1] have 1: "\<bar>w / dh - r\<bar> \<le> 3 / 2 ^ 53 * r" by simp
  have k2: "\<bar>(1 + e2) * (1 + e3) - 1\<bar> \<le> 3 / 2 ^ 53"
    using rel_mult [OF e2 e3 unit_roundoff] by simp
  have p3: "0 < 1 + e3" using e3 by (rule rel_pos)
  have "dh * a \<le> dh * t" using lt pos(3) by simp
  then have "dh * a * (1 + e3) \<le> dh * t * (1 + e3)"
    using p3 by (intro mult_right_mono) linarith+
  also have "dh * t * (1 + e3) = dw * ((1 + e2) * (1 + e3))"
    using pos(3) by (simp add: t s)
  also have "\<dots> \<le> (1 + 3 / 2 ^ 53) * dw" by (rule rel_upper [OF pos(2) k2])
  finally have 2: "w \<le> (1 + 3 / 2 ^ 53) * dw" by (simp add: w)
  from 1 2 show ?thesis by blast
qed

lemma div_div_rel:
  fixes dw a k :: real
  shows "0 < dw \<Longrightarrow> 0 < a \<Longrightarrow> 0 < k \<Longrightarrow> dw / (dw / a * k) = a / k"
  by (simp add: field_simps)

lemma div_rel_mult:
  fixes dw dh k2 k3 :: real
  shows "0 < dw \<Longrightarrow> 0 < dh \<Longrightarrow> 0 < k2 \<Longrightarrow> dw / (dw / dh * k2) * k3 = dh * (k3 / k2)"
  by (simp add: field_simps)

lemma fitImage_tall:
  fixes r s a t dw dh e1 e2 e3 :: real
  assumes pos: "0 < r" "0 < dw" "0 < dh"
    and s: "s = dw / dh"
    and a: "a = r * (1 + e1)" and e1: "\<bar>e1\<bar> \<le> 1 / 2 ^ 53"
    and t: "t = s * (1 + e2)" and e2: "\<bar>e2\<bar> \<le> 1 / 2 ^ 53"
    and h: "h = dw / a * (1 + e3)" and e3: "\<bar>e3\<bar> \<le> 1 / 2 ^ 53"
    and le: "t \<le> a"
  shows "\<bar>dw / h - r\<bar> \<le> 3 / 2 ^ 53 * r \<and> h \<le> (1 + 3 / 2 ^ 53) * dh"
proof -
  have p1: "0 < 1 + e1" using e1 by (rule rel_pos)
  have p2: "0 < 1 + e2" using e2 by (rule rel_pos)
  have p3: "0 < 1 + e3" using e3 by (rule rel_pos)
  have apos: "0 < a" using pos(1) p1 by (simp add: a)
  have spos: "0 < s" using pos(2,3) by (simp add: s)
  have tpos: "0 < t" using spos p2 by (simp add: t)
  have k1: "\<bar>(1 + e1) / (1 + e3) - 1\<bar> \<le> 3 / 2 ^ 53"
    using rel_div [OF e1 e3 unit_roundoff] by simp
  have "dw / h = a / (1 + e3)"
    unfolding h by (rule div_div_rel [OF pos(2) apos p3])
  then have "dw / h = r * ((1 + e1) / (1 + e3))" by (simp add: a)
  with rel_ratio [OF pos(1) k1] have 1: "\<bar>dw / h - r\<bar> \<le> 3 / 2 ^ 53 * r" by simp
  have k2: "\<bar>(1 + e3) / (1 + e2) - 1\<bar> \<le> 3 / 2 ^ 53"
    using rel_div [OF e3 e2 unit_roundoff] by simp
  have "dw / a \<le> dw / t"
    using le tpos pos(2) by (intro divide_left_mono) (simp_all add: mult_pos_pos apos)
  then have "dw / a * (1 + e3) \<le> dw / t * (1 + e3)"
    using p3 by (intro mult_right_mono) linarith+
  also have "dw / t * (1 + e3) = dh * ((1 + e3) / (1 + e2))"
    unfolding t s by (rule div_rel_mult [OF pos(2,3) p2])
  also have "\<dots> \<le> (1 + 3 / 2 ^ 53) * dh" by (rule rel_upper [OF pos(3) k2])
  finally have 2: "h \<le> (1 + 3 / 2 ^ 53) * dh" by (simp add: h)
  from 1 2 show ?thesis by blast
qed

lemma fitImage_props:
  assumes f: "fitImage img d = (x, y, w, h)"
    and pos: "0 < iwidth img" "0 < iheight img" "0 < d_width d" "0 < d_height d"
    and n1: "normal (iwidth img / iheight img)"
    and n2: "normal (d_width d / d_height d)"
    and n3: "normal (d_height d * fdiv (iwidth img) (iheight img))"
    and n4: "normal (d_width d / fdiv (iwidth img) (iheight img))"
  shows "\<bar>w / h - iwidth img / iheight img\<bar> \<le> 3 / 2 ^ 53 * (iwidth img / iheight img)
         \<and> w \<le> (1 + 3 / 2 ^ 53) * d_width d \<and> h \<le> (1 + 3 / 2 ^ 53) * d_height d
         \<and> (w = d_width d \<or> h = d_height d)
         \<and> x = fadd (d_x d) (fdiv (fsub (d_width d) w) 2)
         \<and> y = fadd (d_y d) (fdiv (fsub (d_height d) h) 2)"
proof -
  let ?r = "iwidth img / iheight img"
  let ?s = "d_width d / d_height d"
  let ?a = "fdiv (iwidth img) (iheight img)"
  let ?t = "fdiv (d_width d) (d_height d)"
  have rpos: "0 < ?r" using pos(1,2) by simp
  from round64_relative [OF n1] obtain e1 where e1: "\<bar>e1\<bar> \<le> 1 / 2 ^ 53"
    and a: "?a = ?r * (1 + e1)" by (auto simp: fdiv_def)
  from round64_relative [OF n2] obtain e2 where e2: "\<bar>e2\<bar> \<le> 1 / 2 ^ 53"
    and t: "?t = ?s * (1 + e2)" by (auto simp: fdiv_def)
  have big: "(0::real) \<le> 3 / 2 ^ 53" by simp
  show ?thesis
  proof (cases "?t > ?a")
    case True
    with f have w: "w = fmul (d_height d) ?a" and h: "h = d_height d"
      and x: "x = fadd (d_x d) (fdiv (fsub (d_width d) w) 2)"
      and y: "y = fadd (d_y d) (fdiv (fsub (d_height d) h) 2)"
      by (auto simp: fitImage_def Let_def)
    from round64_relative [OF n3] obtain e3 where e3: "\<bar>e3\<bar> \<le> 1 / 2 ^ 53"
      and w': "w = d_height d * ?a * (1 + e3)" by (auto simp: w fmul_def)
    from fitImage_wide [OF rpos pos(3,4) refl a e1 t e2 w' e3 True]
    have 1: "\<bar>w / d_height d - ?r\<bar> \<le> 3 / 2 ^ 53 * ?r"
      and 2: "w \<le> (1 + 3 / 2 ^ 53) * d_width d" by simp_all
    have 3: "h \<le> (1 + 3 / 2 ^ 53) * d_height d"
      using pos(4) by (simp add: h algebra_simps)
    from 1 2 3 h x y show ?thesis by simp
  next
    case False
    with f have w: "w = d_width d" and h: "h = fdiv (d_width d) ?a"
      and x: "x = fadd (d_x d) (fdiv (fsub (d_width d) w) 2)"
      and y: "y = fadd (d_y d) (fdiv (fsub (d_height d) h) 2)"
      by (auto simp: fitImage_def Let_def)
    from round64_relative [OF n4] obtain e3 where e3: "\<bar>e3\<bar> \<le> 1 / 2 ^ 53"
      and h': "h = d_width d / ?a * (1 + e3)" by (auto simp: h fdiv_def)
    from False have le: "?t \<le> ?a" by simp
    from fitImage_tall [OF rpos pos(3,4) refl a e1 t e2 h' e3 le]
    have 1: "\<bar>d_width d / h - ?r\<bar> \<le> 3 / 2 ^ 53 * ?r"
      and 2: "h \<le> (1 + 3 / 2 ^ 53) * d_height d" by simp_all
    have 3: "w \<le> (1 + 3 / 2 ^ 53) * d_width d"
      using pos(3) by (simp add: w algebra_simps)
    from 1 2 3 w x y show ?thesis by simp
  qed
qed

lemma embedImageInPage_last:
  assumes "embedImageInPage lib ops file d = Inr ops'"
    and "decodeImage lib file = Inr img"
  shows "\<exists>x y w h. fitImage img d = (x, y, w, h) \<and> last ops' = DrawImage img x y w h"
proof -
  obtain x y w h where f: "fitImage img d = (x, y, w, h)"
    by (metis prod_cases4)
  with assms have "last ops' = DrawImage img x y w h"
    by (auto simp: embedImageInPage_def Let_def split: if_splits option.splits sum.splits)
  with f show ?thesis by blast
qed

text \<open>
  Claim C5, as the program has it. When \<^verbatim>\<open>embedImageInPage\<close> succeeds on an image of
  positive width and height and a target rectangle of positive width and height, and the
  quotients and the product of the fit are in the range of the normal doubles, the last
  thing drawn is the image, in a box whose width to height is the image's width to height
  up to a relative error of \<open>3 / 2 ^ 53\<close>, that exceeds neither side of the target
  rectangle by more than that relative error, that has one side equal to the side of the
  target rectangle, and whose position is the centring formula computed on doubles.
\<close>

theorem embedImageInPage_fit:
  assumes "embedImageInPage lib ops file d = Inr ops'"
    and "decodeImage lib file = Inr img"
    and "0 < iwidth img" and "0 < iheight img" and "0 < d_width d" and "0 < d_height d"
    and "normal (iwidth img / iheight img)"
    and "normal (d_width d / d_height d)"
    and "normal (d_height d * fdiv (iwidth img) (iheight img))"
    and "normal (d_width d / fdiv (iwidth img) (iheight img))"
  shows "\<exists>x y w h. last ops' = DrawImage img x y w h
           \<and> \<bar>w / h - iwidth img / iheight img\<bar> \<le> 3 / 2 ^ 53 * (iwidth img / iheight img)
           \<and> w \<le> (1 + 3 / 2 ^ 53) * d_width d
           \<and> h \<le> (1 + 3 / 2 ^ 53) * d_height d
           \<and> (w = d_width d \<or> h = d_height d)
           \<and> x = fadd (d_x d) (fdiv (fsub (d_width d) w) 2)
           \<and> y = fadd (d_y d) (fdiv (fsub (d_height d) h) 2)"
proof -
  from embedImageInPage_last [OF assms(1,2)]
  obtain x y w h where f: "fitImage img d = (x, y, w, h)"
    and l: "last ops' = DrawImage img x y w h"
    by blast
  from fitImage_props [OF f assms(3-10)] l show ?thesis by blast
qed

lemma embedImageInPage_no_border:
  assumes "decodeImage lib file = Inr img" and "\<not> enabled (d_border d)"
    and "fitImage img d = (x, y, w, h)"
  shows "embedImageInPage lib ops file d = Inr (ops @ [DrawImage img x y w h])"
  using assms by (simp add: embedImageInPage_def)

lemma normal_examples: "normal 2" "normal (5 / 6)" "normal 1200" "normal 250"
  by (simp_all add: normal_def maxDouble_def pow2_def)

lemma decode_example_jpeg:
  "decodeImage exampleLib (jpegFile ''wide.jpg'' [7])
   = Inr \<lparr>iref = 7, iwidth = 400, iheight = 200\<rparr>"
  by (simp add: decodeImage_def exampleLib_def jpegFile_def startsWith_def)

lemma fit_example_jpeg:
  "fitImage \<lparr>iref = 7, iwidth = 400, iheight = 200\<rparr>
     \<lparr>d_x = 20, d_y = 30, d_width = 500, d_height = 600,
      d_border = \<lparr>enabled = False, b_width = 1, color = ''#000000''\<rparr>\<rparr>
   = (20, 205, 500, 250)"
proof -
  have w1: "fdiv 400 200 = 2"
    by (simp add: fl_eval)
  have w2: "fdiv 500 600 = 7505999378950827 / 9007199254740992"
    by (simp add: fl_eval)
  have w3: "fdiv 500 2 = 250"
    by (simp add: fl_eval)
  have w4: "fsub 500 500 = 0"
    by (simp add: fl_eval)
  have w5: "fdiv 0 2 = 0"
    by (simp add: fl_eval)
  have w6: "fadd 20 0 = 20"
    by (simp add: fl_eval)
  have w7: "fsub 600 250 = 350"
    by (simp add: fl_eval)
  have w8: "fdiv 350 2 = 175"
    by (simp add: fl_eval)
  have w9: "fadd 30 175 = 205"
    by (simp add: fl_eval)
  show ?thesis
    by (simp add: fitImage_def w1 w2 w3 w4 w5 w6 w7 w8 w9)
qed

lemma embed_example_jpeg:
  "embedImageInPage exampleLib [] (jpegFile ''wide.jpg'' [7])
     \<lparr>d_x = 20, d_y = 30, d_width = 500, d_height = 600,
      d_border = \<lparr>enabled = False, b_width = 1, color = ''#000000''\<rparr>\<rparr>
   = Inr [DrawImage \<lparr>iref = 7, iwidth = 400, iheight = 200\<rparr> 20 205 500 250]"
  using embedImageInPage_no_border [OF decode_example_jpeg _ fit_example_jpeg, of "[]"]
  by simp

text \<open>An image of 400 by 200 in a rectangle of 500 by 600 at (20, 30) is drawn 500 by 250
  at (20, 205).\<close>

theorem embedImageInPage_fit_witness:
  "embedImageInPage exampleLib [] (jpegFile ''wide.jpg'' [7])
     \<lparr>d_x = 20, d_y = 30, d_width = 500, d_height = 600,
      d_border = \<lparr>enabled = False, b_width = 1, color = ''#000000''\<rparr>\<rparr>
     = Inr [DrawImage \<lparr>iref = 7, iwidth = 400, iheight = 200\<rparr> 20 205 500 250]
   \<and> decodeImage exampleLib (jpegFile ''wide.jpg'' [7])
       = Inr \<lparr>iref = 7, iwidth = 400, iheight = 200\<rparr>
   \<and> normal (400 / 200) \<and> normal (500 / 600)
   \<and> normal (600 * fdiv 400 200) \<and> normal (500 / fdiv 400 200)
   \<and> (\<exists>x y w h.
         last [DrawImage \<lparr>iref = 7, iwidth = 400, iheight = 200\<rparr> 20 205 500 250]
           = DrawImage \<lparr>iref = 7, iwidth = 400, iheight = 200\<rparr> x y w h
         \<and> \<bar>w / h - 400 / 200\<bar> \<le> 3 / 2 ^ 53 * (400 / 200)
         \<and> w \<le> (1 + 3 / 2 ^ 53) * 500 \<and> h \<le> (1 + 3 / 2 ^ 53) * 600
         \<and> (w = 500 \<or> h = 600)
         \<and> x = fadd 20 (fdiv (fsub 500 w) 2) \<and> y = fadd 30 (fdiv (fsub 600 h) 2))"
proof -
  have a: "fdiv 400 200 = 2" by (simp add: fl_eval)
  have n1: "normal (400 / 200)" and n2: "normal (500 / 600)"
    and n3: "normal (600 * fdiv 400 200)" and n4: "normal (500 / fdiv 400 200)"
    using normal_examples by (simp_all add: a)
  from embedImageInPage_fit [OF embed_example_jpeg decode_example_jpeg]
  have "\<exists>x y w h.
         last [DrawImage \<lparr>iref = 7, iwidth = 400, iheight = 200\<rparr> 20 205 500 250]
           = DrawImage \<lparr>iref = 7, iwidth = 400, iheight = 200\<rparr> x y w h
         \<and> \<bar>w / h - 400 / 200\<bar> \<le> 3 / 2 ^ 53 * (400 / 200)
         \<and> w \<le> (1 + 3 / 2 ^ 53) * 500 \<and> h \<le> (1 + 3 / 2 ^ 53) * 600
         \<and> (w = 500 \<or> h = 600)
         \<and> x = fadd 20 (fdiv (fsub 500 w) 2) \<and> y = fadd 30 (fdiv (fsub 600 h) 2)"
    using n1 n2 n3 n4 by simp
  with embed_example_jpeg decode_example_jpeg n1 n2 n3 n4 show ?thesis by (intro conjI)
qed

lemma A4_landscape:
  "pageSize photoLib photoOptions = (7405342754466693 / 2 ^ 43, 2618069127129989 / 2 ^ 42)"
  by (simp add: pageSize_def photoLib_def exampleLib_def photoOptions_def fl_eval)

lemma photo_slot:
  "slotDimensions (7405342754466693 / 2 ^ 43) (2618069127129989 / 2 ^ 42) photoOptions 0
   = \<lparr>d_x = 20, d_y = 100, d_width = 7141459963800453 / 2 ^ 43,
      d_height = 2165070336486277 / 2 ^ 42,
      d_border = \<lparr>enabled = False, b_width = 1, color = ''#000000''\<rparr>\<rparr>"
proof -
  have s1: "fsub (7405342754466693 / 8796093022208) 20 = 7229420894022533 / 8796093022208"
    by (simp add: fl_eval)
  have s2: "fsub (7229420894022533 / 8796093022208) 10 = 7141459963800453 / 8796093022208"
    by (simp add: fl_eval)
  have s3: "fsub (2618069127129989 / 4398046511104) 3 = 2604874987596677 / 4398046511104"
    by (simp add: fl_eval)
  have s4: "fsub (2604874987596677 / 4398046511104) 100 = 2165070336486277 / 4398046511104"
    by (simp add: fl_eval)
  have s5: "fmul 0 10 = 0"
    by (simp add: fl_eval)
  have s6: "fsub (7141459963800453 / 8796093022208) 0 = 7141459963800453 / 8796093022208"
    by (simp add: fl_eval)
  have s7: "fdiv (7141459963800453 / 8796093022208) 1 = 7141459963800453 / 8796093022208"
    by (simp add: fl_eval)
  have s8: "fmul 0 100 = 0"
    by (simp add: fl_eval)
  have s9: "fsub (2165070336486277 / 4398046511104) 0 = 2165070336486277 / 4398046511104"
    by (simp add: fl_eval)
  have s10: "fdiv (2165070336486277 / 4398046511104) 1 = 2165070336486277 / 4398046511104"
    by (simp add: fl_eval)
  have s11: "fadd (7141459963800453 / 8796093022208) 10 = 7229420894022533 / 8796093022208"
    by (simp add: fl_eval)
  have s12: "fmul 0 (7229420894022533 / 8796093022208) = 0"
    by (simp add: fl_eval)
  have s13: "fadd 20 0 = 20"
    by (simp add: fl_eval)
  have s14: "fmul 1 (2165070336486277 / 4398046511104) = 2165070336486277 / 4398046511104"
    by (simp add: fl_eval)
  have s15: "fsub (2604874987596677 / 4398046511104) (2165070336486277 / 4398046511104) = 100"
    by (simp add: fl_eval)
  have s16: "fsub 100 0 = 100"
    by (simp add: fl_eval)
  show ?thesis
    by (simp add: slotDimensions_def photoOptions_def s1 s2 s3 s4 s5 s6 s7 s8 s9 s10 s11 s12 s13 s14 s15 s16)
qed

lemma photo_fit:
  "fitImage \<lparr>iref = 0, iwidth = 2619, iheight = 1588\<rparr>
     \<lparr>d_x = 20, d_y = 100, d_width = 7141459963800453 / 2 ^ 43,
      d_height = 2165070336486277 / 2 ^ 42,
      d_border = \<lparr>enabled = False, b_width = 1, color = ''#000000''\<rparr>\<rparr>
   = (20, 3518437208883199 / 2 ^ 45, 7141459963800453 / 2 ^ 43, 8660281345945109 / 2 ^ 44)"
proof -
  have f1: "fdiv 2619 1588 = 3713768080630771 / 2251799813685248"
    by (simp add: fl_eval)
  have f2: "fdiv (7141459963800453 / 8796093022208) (2165070336486277 / 4398046511104) = 3713768080630771 / 2251799813685248"
    by (simp add: fl_eval)
  have f3: "fdiv (7141459963800453 / 8796093022208) (3713768080630771 / 2251799813685248) = 8660281345945109 / 17592186044416"
    by (simp add: fl_eval)
  have f4: "fsub (7141459963800453 / 8796093022208) (7141459963800453 / 8796093022208) = 0"
    by (simp add: fl_eval)
  have f5: "fdiv 0 2 = 0"
    by (simp add: fl_eval)
  have f6: "fadd 20 0 = 20"
    by (simp add: fl_eval)
  have f7: "fsub (2165070336486277 / 4398046511104) (8660281345945109 / 17592186044416) = - (1 / 17592186044416)"
    by (simp add: fl_eval)
  have f8: "fdiv (- (1 / 17592186044416)) 2 = - (1 / 35184372088832)"
    by (simp add: fl_eval)
  have f9: "fadd 100 (- (1 / 35184372088832)) = 3518437208883199 / 35184372088832"
    by (simp add: fl_eval)
  show ?thesis
    by (simp add: fitImage_def f1 f2 f3 f4 f5 f6 f7 f8 f9)
qed

lemma photo_decode:
  "decodeImage photoLib (jpegFile ''photo.jpg'' [1])
   = Inr \<lparr>iref = 0, iwidth = 2619, iheight = 1588\<rparr>"
  by (simp add: decodeImage_def photoLib_def exampleLib_def jpegFile_def startsWith_def)

text \<open>The options of the photograph are options of the application: they are set by
  a click on the landscape button and four margin fields.\<close>

lemma photoOptions_reachable:
  "layoutOptions (run unicodeLower lib
     [LayoutChange (OrientationClick Landscape), LayoutChange (MarginInput Top 3),
      LayoutChange (MarginInput Right 10), LayoutChange (MarginInput Bottom 100),
      LayoutChange (MarginInput Left 20)]) = photoOptions"
  by (simp add: run_def initialState_def photoOptions_def)

lemma photo_embed:
  "embedImageInPage photoLib [] (jpegFile ''photo.jpg'' [1])
         \<lparr>d_x = 20, d_y = 100, d_width = 7141459963800453 / 2 ^ 43,
          d_height = 2165070336486277 / 2 ^ 42,
          d_border = \<lparr>enabled = False, b_width = 1, color = ''#000000''\<rparr>\<rparr>
       = Inr [DrawImage \<lparr>iref = 0, iwidth = 2619, iheight = 1588\<rparr>
                20 (3518437208883199 / 2 ^ 45) (7141459963800453 / 2 ^ 43)
                (8660281345945109 / 2 ^ 44)]"
  using embedImageInPage_no_border [OF photo_decode _ photo_fit, of "[]"] by simp

text \<open>Against claim C5 as it is written. On a landscape page with one image and the
  margins 3, 10, 100 and 20, which the controls of the application give, the slot is about
  811.89 by 492.28. A photograph of 2619 by 1588 has, in exact arithmetic, the proportions
  of the slot, but the doubles give it the width of the slot and a height that is greater
  than the height of the slot by \<open>2 ^ -44\<close>, so that it starts below the slot; its width
  to height is not 2619 to 1588.\<close>

theorem embedImageInPage_fit_counterexample:
  "layoutOptions (run exampleLower photoLib
     [LayoutChange (OrientationClick Landscape), LayoutChange (MarginInput Top 3),
      LayoutChange (MarginInput Right 10), LayoutChange (MarginInput Bottom 100),
      LayoutChange (MarginInput Left 20)]) = photoOptions
   \<and> slotDimensions (fst (pageSize photoLib photoOptions))
         (snd (pageSize photoLib photoOptions)) photoOptions 0
       = \<lparr>d_x = 20, d_y = 100, d_width = 7141459963800453 / 2 ^ 43,
          d_height = 2165070336486277 / 2 ^ 42,
          d_border = \<lparr>enabled = False, b_width = 1, color = ''#000000''\<rparr>\<rparr>
   \<and> decodeImage photoLib (jpegFile ''photo.jpg'' [1])
       = Inr \<lparr>iref = 0, iwidth = 2619, iheight = 1588\<rparr>
   \<and> embedImageInPage photoLib [] (jpegFile ''photo.jpg'' [1])
         \<lparr>d_x = 20, d_y = 100, d_width = 7141459963800453 / 2 ^ 43,
          d_height = 2165070336486277 / 2 ^ 42,
          d_border = \<lparr>enabled = False, b_width = 1, color = ''#000000''\<rparr>\<rparr>
       = Inr [DrawImage \<lparr>iref = 0, iwidth = 2619, iheight = 1588\<rparr>
                20 (3518437208883199 / 2 ^ 45) (7141459963800453 / 2 ^ 43)
                (8660281345945109 / 2 ^ 44)]
   \<and> (2165070336486277 / 2 ^ 42 :: real) < 8660281345945109 / 2 ^ 44
   \<and> (3518437208883199 / 2 ^ 45 :: real) < 100
   \<and> (7141459963800453 / 2 ^ 43) / (8660281345945109 / 2 ^ 44) \<noteq> (2619 / 1588 :: real)"
proof -
  have s: "slotDimensions (fst (pageSize photoLib photoOptions))
             (snd (pageSize photoLib photoOptions)) photoOptions 0
           = \<lparr>d_x = 20, d_y = 100, d_width = 7141459963800453 / 2 ^ 43,
              d_height = 2165070336486277 / 2 ^ 42,
              d_border = \<lparr>enabled = False, b_width = 1, color = ''#000000''\<rparr>\<rparr>"
    by (simp only: A4_landscape fst_conv snd_conv photo_slot)
  have h: "(2165070336486277 / 2 ^ 42 :: real) < 8660281345945109 / 2 ^ 44" by simp
  have y: "(3518437208883199 / 2 ^ 45 :: real) < 100" by simp
  have r: "(7141459963800453 / 2 ^ 43) / (8660281345945109 / 2 ^ 44) \<noteq> (2619 / 1588 :: real)"
    by simp
  from photoOptions_reachable [of exampleLower photoLib] s photo_decode photo_embed h y r
  show ?thesis by (intro conjI)
qed

section \<open>The border colour\<close>

lemma hexDigit_Some:
  "hexDigit h = Some d \<Longrightarrow> isWordChar h \<and> d \<le> 15 \<and> h \<noteq> CHR ''x'' \<and> h \<noteq> CHR ''X''"
  by (auto simp: hexDigit_def isWordChar_def upperCase_def lowerCase_def split: if_splits)

lemma component_hex:
  assumes "hexDigit a = Some da" and "hexDigit b = Some db"
  shows "component [a, b] = Num (real (16 * da + db) / 255) \<and> 16 * da + db \<le> 255"
proof -
  from hexDigit_Some [OF assms(1)] hexDigit_Some [OF assms(2)]
  have bx: "b \<noteq> CHR ''x''" "b \<noteq> CHR ''X''" and le: "da \<le> 15" "db \<le> 15" by simp_all
  have "parseInt16 [a, b] = Some (16 * da + db)"
    using assms bx by (simp add: parseInt16_def startsWith_def)
  with le show ?thesis by (simp add: component_def)
qed

lemma scanPairs_hex6:
  assumes "isWordChar a" "isWordChar b" "isWordChar c" "isWordChar d" "isWordChar e" "isWordChar f"
  shows "scanPairs [CHR ''#'', a, b, c, d, e, f] = [[a, b], [c, d], [e, f]]"
proof -
  have "\<not> isWordChar CHR ''#''"
    by (simp add: isWordChar_def upperCase_def lowerCase_def)
  with assms show ?thesis by simp
qed

lemma length6: "length hs = 6 \<Longrightarrow> \<exists>a b c d e f. hs = [a, b, c, d, e, f]"
  by (auto simp: length_Suc_conv numeral_eq_Suc)

lemma borderColor_hex6:
  assumes "length hs = 6" and "list_all (\<lambda>h. hexDigit h \<noteq> None) hs"
  shows "\<exists>ms r g b. matchPairs (CHR ''#'' # hs) = Some ms \<and> length ms = 3
           \<and> borderColor (CHR ''#'' # hs) = Some (Num r, Num g, Num b)
           \<and> 0 \<le> r \<and> r \<le> 1 \<and> 0 \<le> g \<and> g \<le> 1 \<and> 0 \<le> b \<and> b \<le> 1"
proof -
  from length6 [OF assms(1)] obtain a b c d e f where hs: "hs = [a, b, c, d, e, f]" by blast
  with assms(2) obtain da db dc dd de df where
    h: "hexDigit a = Some da" "hexDigit b = Some db" "hexDigit c = Some dc"
       "hexDigit d = Some dd" "hexDigit e = Some de" "hexDigit f = Some df"
    by auto
  have w: "isWordChar a" "isWordChar b" "isWordChar c" "isWordChar d" "isWordChar e" "isWordChar f"
    using h hexDigit_Some by blast+
  have sp: "scanPairs (CHR ''#'' # hs) = [[a, b], [c, d], [e, f]]"
    unfolding hs by (rule scanPairs_hex6 [OF w])
  then have mp: "matchPairs (CHR ''#'' # hs) = Some [[a, b], [c, d], [e, f]]"
    by (simp add: matchPairs_def)
  note c1 = component_hex [OF h(1) h(2)] and c2 = component_hex [OF h(3) h(4)]
    and c3 = component_hex [OF h(5) h(6)]
  have bc: "borderColor (CHR ''#'' # hs) =
        Some (Num (real (16 * da + db) / 255), Num (real (16 * dc + dd) / 255),
              Num (real (16 * de + df) / 255))"
    using mp c1 c2 c3 by (simp add: borderColor_def element_def)
  have r1: "0 \<le> real (16 * da + db) / 255 \<and> real (16 * da + db) / 255 \<le> 1"
    using c1 by simp
  have r2: "0 \<le> real (16 * dc + dd) / 255 \<and> real (16 * dc + dd) / 255 \<le> 1"
    using c2 by simp
  have r3: "0 \<le> real (16 * de + df) / 255 \<and> real (16 * de + df) / 255 \<le> 1"
    using c3 by simp
  have len: "length [[a, b], [c, d], [e, f]] = 3" by simp
  show ?thesis using mp len bc r1 r2 r3 by blast
qed

lemma noWordPair_scan: "noWordPair s \<Longrightarrow> scanPairs s = []"
  by (induction s rule: scanPairs.induct) auto

lemma noWordPair_borderColor: "noWordPair s \<Longrightarrow> borderColor s = None"
  by (simp add: borderColor_def matchPairs_def noWordPair_scan)

lemma embedImageInPage_no_match:
  assumes "enabled (d_border d)" and "borderColor (color (d_border d)) = None"
  shows "\<exists>m. embedImageInPage lib ops file d = Inl (PDFError (''Failed to embed image: '' @ m) (Some (fname file)))"
  using assms
  by (auto simp: embedImageInPage_def Let_def split: sum.splits prod.splits)

lemma embedImageInPage_border:
  assumes "decodeImage lib file = Inr img" and "enabled (d_border d)"
    and "borderColor (color (d_border d)) = Some (r, g, b)" and "rgb lib r g b = Inr c"
  shows "\<exists>x y w h.
           embedImageInPage lib ops file d =
             Inr (ops @
                  [DrawRectangle (fsub x (b_width (d_border d))) (fsub y (b_width (d_border d)))
                     (fadd w (fmul (b_width (d_border d)) 2))
                     (fadd h (fmul (b_width (d_border d)) 2)) (b_width (d_border d)) c,
                   DrawImage img x y w h])"
proof -
  obtain x y w h where "fitImage img d = (x, y, w, h)" by (metis prod_cases4)
  with assms have "embedImageInPage lib ops file d =
             Inr (ops @
                  [DrawRectangle (fsub x (b_width (d_border d))) (fsub y (b_width (d_border d)))
                     (fadd w (fmul (b_width (d_border d)) 2))
                     (fadd h (fmul (b_width (d_border d)) 2)) (b_width (d_border d)) c,
                   DrawImage img x y w h])"
    by (simp add: embedImageInPage_def Let_def)
  then show ?thesis by blast
qed

lemma embedImageInPage_hex6:
  assumes "length hs = 6" and "list_all (\<lambda>h. hexDigit h \<noteq> None) hs"
    and "enabled (d_border d)" and "color (d_border d) = CHR ''#'' # hs"
    and "decodeImage lib file = Inr img"
    and "\<forall>r g b. 0 \<le> r \<and> r \<le> 1 \<and> 0 \<le> g \<and> g \<le> 1 \<and> 0 \<le> b \<and> b \<le> 1
           \<longrightarrow> (\<exists>c. rgb lib (Num r) (Num g) (Num b) = Inr c)"
  shows "\<exists>x y w h c.
           embedImageInPage lib ops file d =
             Inr (ops @
                  [DrawRectangle (fsub x (b_width (d_border d))) (fsub y (b_width (d_border d)))
                     (fadd w (fmul (b_width (d_border d)) 2))
                     (fadd h (fmul (b_width (d_border d)) 2)) (b_width (d_border d)) c,
                   DrawImage img x y w h])"
proof -
  from borderColor_hex6 [OF assms(1,2)] obtain r g b where
    bc: "borderColor (CHR ''#'' # hs) = Some (Num r, Num g, Num b)"
    and rng: "0 \<le> r \<and> r \<le> 1 \<and> 0 \<le> g \<and> g \<le> 1 \<and> 0 \<le> b \<and> b \<le> 1"
    by blast
  from assms(6) rng obtain c where c: "rgb lib (Num r) (Num g) (Num b) = Inr c" by blast
  from bc assms(4) have bc': "borderColor (color (d_border d)) = Some (Num r, Num g, Num b)"
    by simp
  from embedImageInPage_border [OF assms(5,3) bc' c, of ops] show ?thesis by blast
qed

text \<open>
  Claim C10. For a colour string made of \<^verbatim>\<open>#\<close> and six hexadecimal digits the match has
  exactly three pairs and the three components are numbers from \<open>0\<close> to \<open>1\<close>; so, with
  the border enabled and an image that decodes, and a colour constructor that accepts
  numbers from \<open>0\<close> to \<open>1\<close>, \<^verbatim>\<open>embedImageInPage\<close> does not fail: it draws the rectangle
  of the border and the image. For a colour string with no two word characters in a row
  the match is \<^verbatim>\<open>null\<close>, and with the border enabled \<^verbatim>\<open>embedImageInPage\<close> fails.
\<close>

theorem borderColor_hex:
  "(length hs = 6 \<and> list_all (\<lambda>h. hexDigit h \<noteq> None) hs \<longrightarrow>
      (\<exists>ms r g b. matchPairs (CHR ''#'' # hs) = Some ms \<and> length ms = 3
         \<and> borderColor (CHR ''#'' # hs) = Some (Num r, Num g, Num b)
         \<and> 0 \<le> r \<and> r \<le> 1 \<and> 0 \<le> g \<and> g \<le> 1 \<and> 0 \<le> b \<and> b \<le> 1)
      \<and> (\<forall>lib ops file d img.
            enabled (d_border d) \<and> color (d_border d) = CHR ''#'' # hs
            \<and> decodeImage lib file = Inr img
            \<and> (\<forall>r g b. 0 \<le> r \<and> r \<le> 1 \<and> 0 \<le> g \<and> g \<le> 1 \<and> 0 \<le> b \<and> b \<le> 1
                  \<longrightarrow> (\<exists>c. rgb lib (Num r) (Num g) (Num b) = Inr c))
            \<longrightarrow> (\<exists>x y w h c.
                   embedImageInPage lib ops file d =
                     Inr (ops @
                          [DrawRectangle (fsub x (b_width (d_border d)))
                             (fsub y (b_width (d_border d)))
                             (fadd w (fmul (b_width (d_border d)) 2))
                             (fadd h (fmul (b_width (d_border d)) 2))
                             (b_width (d_border d)) c,
                           DrawImage img x y w h]))))
   \<and> (noWordPair s \<longrightarrow>
        borderColor s = None
        \<and> (\<forall>lib ops file d. enabled (d_border d) \<and> color (d_border d) = s \<longrightarrow>
              (\<exists>m. embedImageInPage lib ops file d =
                     Inl (PDFError (''Failed to embed image: '' @ m) (Some (fname file))))))"
proof -
  have 1: "\<exists>ms r g b. matchPairs (CHR ''#'' # hs) = Some ms \<and> length ms = 3
         \<and> borderColor (CHR ''#'' # hs) = Some (Num r, Num g, Num b)
         \<and> 0 \<le> r \<and> r \<le> 1 \<and> 0 \<le> g \<and> g \<le> 1 \<and> 0 \<le> b \<and> b \<le> 1"
    if "length hs = 6" and "list_all (\<lambda>h. hexDigit h \<noteq> None) hs"
    using borderColor_hex6 [OF that] .
  have 2: "\<exists>x y w h c.
             embedImageInPage lib ops f d =
               Inr (ops @
                    [DrawRectangle (fsub x (b_width (d_border d)))
                       (fsub y (b_width (d_border d)))
                       (fadd w (fmul (b_width (d_border d)) 2))
                       (fadd h (fmul (b_width (d_border d)) 2))
                       (b_width (d_border d)) c,
                     DrawImage img x y w h])"
    if "length hs = 6" and "list_all (\<lambda>h. hexDigit h \<noteq> None) hs"
      and "enabled (d_border d)" and "color (d_border d) = CHR ''#'' # hs"
      and "decodeImage lib f = Inr img"
      and "\<forall>r g b. 0 \<le> r \<and> r \<le> 1 \<and> 0 \<le> g \<and> g \<le> 1 \<and> 0 \<le> b \<and> b \<le> 1
             \<longrightarrow> (\<exists>c. rgb lib (Num r) (Num g) (Num b) = Inr c)"
    for lib ops f d img
    using embedImageInPage_hex6 [OF that] .
  have 3: "borderColor s = None" if "noWordPair s"
    using that by (rule noWordPair_borderColor)
  have 4: "\<exists>m. embedImageInPage lib ops f d =
                 Inl (PDFError (''Failed to embed image: '' @ m) (Some (fname f)))"
    if "noWordPair s" and "enabled (d_border d)" and "color (d_border d) = s"
    for lib ops f d
    using embedImageInPage_no_match [of d lib ops f] that 3 by simp
  from 1 2 3 4 show ?thesis by blast
qed

lemma hex_ff0080: "list_all (\<lambda>h. hexDigit h \<noteq> None) ''ff0080''"
  by (simp add: hexDigit_def)

lemma noWordPair_hash: "noWordPair ''#''"
  by simp

lemma exampleLib_rgb:
  "\<forall>r g b. 0 \<le> r \<and> r \<le> 1 \<and> 0 \<le> g \<and> g \<le> 1 \<and> 0 \<le> b \<and> b \<le> 1
     \<longrightarrow> (\<exists>c. rgb exampleLib (Num r) (Num g) (Num b) = Inr c)"
  by (simp add: exampleLib_def)

lemma decode_example_png:
  "decodeImage exampleLib (pngFile ''photo.png'' [1])
   = Inr \<lparr>iref = 1, iwidth = 100, iheight = 300\<rparr>"
  by (simp add: decodeImage_def exampleLib_def pngFile_def startsWith_def)

text \<open>With the colour \<^verbatim>\<open>#ff0080\<close> the border and the image are drawn, and the colour
  \<^verbatim>\<open>#\<close> makes the embedding fail.\<close>

theorem borderColor_hex_witness:
  "length ''ff0080'' = 6 \<and> list_all (\<lambda>h. hexDigit h \<noteq> None) ''ff0080''
   \<and> (\<exists>ms r g b. matchPairs ''#ff0080'' = Some ms \<and> length ms = 3
         \<and> borderColor ''#ff0080'' = Some (Num r, Num g, Num b)
         \<and> 0 \<le> r \<and> r \<le> 1 \<and> 0 \<le> g \<and> g \<le> 1 \<and> 0 \<le> b \<and> b \<le> 1)
   \<and> decodeImage exampleLib (pngFile ''photo.png'' [1])
       = Inr \<lparr>iref = 1, iwidth = 100, iheight = 300\<rparr>
   \<and> (\<exists>x y w h c.
         embedImageInPage exampleLib [] (pngFile ''photo.png'' [1])
           \<lparr>d_x = 20, d_y = 20, d_width = 500, d_height = 800,
            d_border = \<lparr>enabled = True, b_width = 2, color = ''#ff0080''\<rparr>\<rparr>
         = Inr [DrawRectangle (fsub x 2) (fsub y 2) (fadd w (fmul 2 2)) (fadd h (fmul 2 2)) 2 c,
                DrawImage \<lparr>iref = 1, iwidth = 100, iheight = 300\<rparr> x y w h])
   \<and> noWordPair ''#'' \<and> borderColor ''#'' = None
   \<and> (\<exists>m. embedImageInPage exampleLib [] (pngFile ''photo.png'' [1])
              \<lparr>d_x = 20, d_y = 20, d_width = 500, d_height = 800,
               d_border = \<lparr>enabled = True, b_width = 2, color = ''#''\<rparr>\<rparr>
            = Inl (PDFError (''Failed to embed image: '' @ m) (Some (ascii ''photo.png''))))"
proof -
  have l: "length ''ff0080'' = 6" by simp
  note t = borderColor_hex [of "''ff0080''" "''#''"]
  from t [THEN conjunct1] l hex_ff0080
  have a: "\<exists>ms r g b. matchPairs ''#ff0080'' = Some ms \<and> length ms = 3
         \<and> borderColor ''#ff0080'' = Some (Num r, Num g, Num b)
         \<and> 0 \<le> r \<and> r \<le> 1 \<and> 0 \<le> g \<and> g \<le> 1 \<and> 0 \<le> b \<and> b \<le> 1"
    and s: "\<forall>lib ops file d img.
            enabled (d_border d) \<and> color (d_border d) = ''#ff0080''
            \<and> decodeImage lib file = Inr img
            \<and> (\<forall>r g b. 0 \<le> r \<and> r \<le> 1 \<and> 0 \<le> g \<and> g \<le> 1 \<and> 0 \<le> b \<and> b \<le> 1
                  \<longrightarrow> (\<exists>c. rgb lib (Num r) (Num g) (Num b) = Inr c))
            \<longrightarrow> (\<exists>x y w h c.
                   embedImageInPage lib ops file d =
                     Inr (ops @
                          [DrawRectangle (fsub x (b_width (d_border d)))
                             (fsub y (b_width (d_border d)))
                             (fadd w (fmul (b_width (d_border d)) 2))
                             (fadd h (fmul (b_width (d_border d)) 2))
                             (b_width (d_border d)) c,
                           DrawImage img x y w h]))"
    by blast+
  let ?d1 = "\<lparr>d_x = 20, d_y = 20, d_width = 500, d_height = 800,
            d_border = \<lparr>enabled = True, b_width = 2, color = ''#ff0080''\<rparr>\<rparr>"
  from s [rule_format, of ?d1 exampleLib "pngFile ''photo.png'' [1]"
            "\<lparr>iref = 1, iwidth = 100, iheight = 300\<rparr>" "[]"]
    decode_example_png exampleLib_rgb
  have ok: "\<exists>x y w h c.
         embedImageInPage exampleLib [] (pngFile ''photo.png'' [1]) ?d1
         = Inr [DrawRectangle (fsub x 2) (fsub y 2) (fadd w (fmul 2 2)) (fadd h (fmul 2 2)) 2 c,
                DrawImage \<lparr>iref = 1, iwidth = 100, iheight = 300\<rparr> x y w h]"
    by simp
  from t [THEN conjunct2] noWordPair_hash
  have b: "borderColor ''#'' = None"
    and c: "\<forall>lib ops file d. enabled (d_border d) \<and> color (d_border d) = ''#'' \<longrightarrow>
              (\<exists>m. embedImageInPage lib ops file d =
                     Inl (PDFError (''Failed to embed image: '' @ m) (Some (fname file))))"
    by blast+
  let ?d = "\<lparr>d_x = 20, d_y = 20, d_width = 500, d_height = 800,
               d_border = \<lparr>enabled = True, b_width = 2, color = ''#''\<rparr>\<rparr>"
  from c [rule_format, of ?d exampleLib "[]" "pngFile ''photo.png'' [1]"]
  have e: "\<exists>m. embedImageInPage exampleLib [] (pngFile ''photo.png'' [1]) ?d
            = Inl (PDFError (''Failed to embed image: '' @ m) (Some (ascii ''photo.png'')))"
    by (simp add: pngFile_def)
  from l hex_ff0080 a decode_example_png ok noWordPair_hash b e show ?thesis
    by (intro conjI)
qed

section \<open>The layout options of the application\<close>

lemma setMargin_inRange:
  assumes "marginInRange v" and "marginInRange (m_top m)" and "marginInRange (m_right m)"
    and "marginInRange (m_bottom m)" and "marginInRange (m_left m)"
  shows "marginInRange (m_top (setMargin m s v)) \<and> marginInRange (m_right (setMargin m s v))
         \<and> marginInRange (m_bottom (setMargin m s v)) \<and> marginInRange (m_left (setMargin m s v))"
  using assms by (cases s) simp_all

lemma clamp_margin: "marginInRange (max 0 (min 100 v))"
  by (simp add: marginInRange_def)

lemma updateOptions_inRange:
  assumes "optionsInRange options"
  shows "optionsInRange (updateOptions options e)"
proof (cases e)
  case (MarginInput s v)
  from assms have m: "marginInRange (m_top (margins options))"
    "marginInRange (m_right (margins options))" "marginInRange (m_bottom (margins options))"
    "marginInRange (m_left (margins options))"
    and b: "0.1 \<le> b_width (border options)" "b_width (border options) \<le> 10"
    by (simp_all add: optionsInRange_def)
  from setMargin_inRange [OF clamp_margin [of v] m, of s] b MarginInput
  show ?thesis by (simp add: optionsInRange_def Let_def)
next
  case (BorderWidthInput v)
  with assms show ?thesis by (simp add: optionsInRange_def Let_def)
qed (use assms in \<open>simp_all add: optionsInRange_def\<close>)

lemma step_inRange:
  assumes "optionsInRange (layoutOptions st)"
  shows "optionsInRange (layoutOptions (step unicodeLower lib st ev))"
proof (cases ev)
  case (FilesDrop newFiles)
  with assms show ?thesis by (simp add: handleFilesDrop_def)
next
  case (RemoveFile index)
  with assms show ?thesis by (simp add: handleRemoveFile_def)
next
  case (LayoutChange e)
  with updateOptions_inRange [OF assms] show ?thesis by simp
next
  case CreatePDFClick
  with assms show ?thesis
    by (simp add: App_createPDF_def split: option.splits sum.splits)
qed

lemma foldl_step_inRange:
  "optionsInRange (layoutOptions st) \<Longrightarrow>
   optionsInRange (layoutOptions (foldl (step unicodeLower lib) st events))"
  by (induction events arbitrary: st) (simp_all add: step_inRange)

lemma initialState_inRange: "optionsInRange (layoutOptions initialState)"
  by (simp add: initialState_def optionsInRange_def marginInRange_def)

text \<open>
  Claim C6. After every sequence of events of the application, started from its initial
  state, the layout options of the state have their margins from \<open>0\<close> to \<open>100\<close> and
  their border width from \<open>0.1\<close> to \<open>10\<close>; these are the options that a click on the
  create button hands to the merge, which reads them from the state.
\<close>

theorem options_always_in_range:
  "optionsInRange (layoutOptions (run unicodeLower lib events))"
  unfolding run_def by (rule foldl_step_inRange [OF initialState_inRange])

section \<open>The merge\<close>

subsection \<open>Chunks\<close>

text \<open>With a positive chunk size the loop of \<^verbatim>\<open>chunkArray\<close> returns, and it returns the
  consecutive chunks.\<close>

lemma chunkLoop_chunksOf:
  assumes "0 < k"
  shows "chunkLoop xs k i cs = Some (cs @ chunksOf k (drop i xs))"
proof (induction "length xs - i" arbitrary: i cs rule: less_induct)
  case less
  show ?case
  proof (cases "i < length xs")
    case True
    then have "length xs - (i + k) < length xs - i"
      using assms by simp
    from less [OF this]
    have ih: "chunkLoop xs k (i + k) (cs @ [slice_list xs i (i + k)]) =
              Some ((cs @ [slice_list xs i (i + k)]) @ chunksOf k (drop (i + k) xs))" .
    from True have ne: "drop i xs \<noteq> []" by simp
    have "chunksOf k (drop i xs) = take k (drop i xs) # chunksOf k (drop k (drop i xs))"
      using assms ne by (subst chunksOf.simps) simp
    also have "\<dots> = slice_list xs i (i + k) # chunksOf k (drop (i + k) xs)"
      by (simp add: slice_list_def add.commute)
    finally have c: "chunksOf k (drop i xs) = slice_list xs i (i + k) # chunksOf k (drop (i + k) xs)" .
    show ?thesis
      using True ih c by (subst chunkLoop.simps) simp
  next
    case False
    then have "chunksOf k (drop i xs) = []"
      by (subst chunksOf.simps) simp
    with False show ?thesis
      by (subst chunkLoop.simps) simp
  qed
qed

lemma chunkArray_chunksOf: "0 < k \<Longrightarrow> chunkArray xs k = Some (chunksOf k xs)"
  by (simp add: chunkArray_def chunkLoop_chunksOf)

lemma ipp_num_pos: "0 < ipp_num k"
  by (cases k) simp_all

lemma concat_chunksOf: "0 < k \<Longrightarrow> concat (chunksOf k xs) = xs"
proof (induction k xs rule: chunksOf.induct)
  case (1 k xs)
  show ?case
  proof (cases "xs = []")
    case True
    then show ?thesis by (subst chunksOf.simps) simp
  next
    case False
    with 1 have "concat (chunksOf k (drop k xs)) = drop k xs" by simp
    with False 1(2) show ?thesis by (subst chunksOf.simps) simp
  qed
qed

lemma div_round_up: "0 < k \<Longrightarrow> 0 < (n::nat) \<Longrightarrow> (n + k - 1) div k = Suc ((n - 1) div k)"
proof -
  assume k: "0 < k" and n: "0 < n"
  then have "n + k - 1 = (n - 1) + k" by simp
  then have "(n + k - 1) div k = ((n - 1) + k) div k" by simp
  also have "\<dots> = Suc ((n - 1) div k)" using k by simp
  finally show ?thesis .
qed

lemma length_chunksOf: "0 < k \<Longrightarrow> length (chunksOf k xs) = (length xs + k - 1) div k"
proof (induction k xs rule: chunksOf.induct)
  case (1 k xs)
  show ?case
  proof (cases "xs = []")
    case True
    with 1(2) show ?thesis by (subst chunksOf.simps) simp
  next
    case False
    then have n: "0 < length xs" by simp
    from False 1 have ih: "length (chunksOf k (drop k xs)) = (length (drop k xs) + k - 1) div k"
      by simp
    have l: "length (chunksOf k xs) = Suc ((length xs - k + k - 1) div k)"
      using False 1(2) ih by (subst chunksOf.simps) simp
    have "(length xs - k + k - 1) div k = (length xs - 1) div k"
    proof (cases "k \<le> length xs")
      case True
      then show ?thesis by simp
    next
      case False
      then have "length xs - k = 0" and "length xs - 1 < k" and "k - 1 < k"
        using 1(2) by simp_all
      then show ?thesis by simp
    qed
    with l div_round_up [OF 1(2) n] show ?thesis by simp
  qed
qed

lemma nth_chunksOf:
  "0 < k \<Longrightarrow> j < length (chunksOf k xs) \<Longrightarrow> chunksOf k xs ! j = take k (drop (j * k) xs)"
proof (induction k xs arbitrary: j rule: chunksOf.induct)
  case (1 k xs)
  show ?case
  proof (cases "xs = []")
    case True
    with 1(3) show ?thesis by (subst (asm) chunksOf.simps) simp
  next
    case False
    then have c: "chunksOf k xs = take k xs # chunksOf k (drop k xs)"
      using 1(2) by (subst chunksOf.simps) simp
    show ?thesis
    proof (cases j)
      case 0
      with c show ?thesis by simp
    next
      case (Suc j')
      with 1(3) c have "j' < length (chunksOf k (drop k xs))" by simp
      with 1(1) [of j'] False 1(2)
      have "chunksOf k (drop k xs) ! j' = take k (drop (j' * k) (drop k xs))" by simp
      with c Suc show ?thesis by (simp add: add.commute)
    qed
  qed
qed

lemma ceiling_div_nat:
  assumes "0 < k"
  shows "nat \<lceil>real n / real k\<rceil> = (n + k - 1) div k"
proof -
  define q where "q = (n + k - 1) div k"
  have 1: "q * k \<le> n + k - 1"
    unfolding q_def by simp
  have 2: "n + k - 1 < k + q * k"
    unfolding q_def using assms by (simp add: dividend_less_div_times)
  have 3: "n \<le> q * k" using 2 assms by linarith
  have 4: "q * k < n + k" using 1 assms by linarith
  have up: "real n / real k \<le> real q"
    using 3 assms by (simp add: field_simps) (metis of_nat_le_iff of_nat_mult)
  have "real (q * k) < real (n + k)" using 4 by (simp only: of_nat_less_iff)
  then have lo: "real q - 1 < real n / real k"
    using assms by (simp add: field_simps)
  have "\<lceil>real n / real k\<rceil> = int q"
    by (rule ceiling_unique) (use up lo in simp_all)
  then show ?thesis by (simp add: q_def)
qed

subsection \<open>Pages of images\<close>

text \<open>What an embedding adds to the images on a page, and what a group, and all the
  groups, add to the document.\<close>

lemma embedImageInPage_images:
  assumes "embedImageInPage lib ops file d = Inr ops'"
  shows "\<exists>img. decodeImage lib file = Inr img
           \<and> concat (map opImages ops') = concat (map opImages ops) @ [img]"
  using assms
  by (auto simp: embedImageInPage_def Let_def
           split: if_splits option.splits sum.splits prod.splits)

lemma embedGroup_images:
  "embedGroup lib w h options i fs ops = Inr ops' \<Longrightarrow>
   map Inr (concat (map opImages ops'))
     = map Inr (concat (map opImages ops)) @ map (decodeImage lib) fs"
proof (induction fs arbitrary: i ops)
  case Nil
  then show ?case by simp
next
  case (Cons f fs)
  from Cons.prems obtain ops1 where
    e: "embedImageInPage lib ops f (slotDimensions w h options i) = Inr ops1"
    and r: "embedGroup lib w h options (i + 1) fs ops1 = Inr ops'"
    by (auto split: sum.splits)
  from embedImageInPage_images [OF e] obtain img where
    d: "decodeImage lib f = Inr img"
    and c: "concat (map opImages ops1) = concat (map opImages ops) @ [img]"
    by blast
  from Cons.IH [OF r] c d show ?case by simp
qed

lemma groupPage_shows:
  assumes "groupPage lib options grp = Inr p"
  shows "pageShows lib p grp \<and> (\<exists>ops. p = NewPage (pageSize lib options) ops)"
proof -
  obtain w h where sz: "pageSize lib options = (w, h)" by (cases "pageSize lib options")
  with assms obtain ops where e: "embedGroup lib w h options 0 grp [] = Inr ops"
    and p: "p = NewPage (w, h) ops"
    by (auto simp: groupPage_def split: sum.splits)
  from embedGroup_images [OF e] p sz show ?thesis
    by (simp add: pageShows_def)
qed

lemma addGroups_pages:
  "addGroups lib options doc gs = Inr doc' \<Longrightarrow>
   \<exists>pages. doc' = doc @ pages \<and> list_all2 (pageShows lib) pages gs
      \<and> (\<forall>p \<in> set pages. \<exists>ops. p = NewPage (pageSize lib options) ops)"
proof (induction gs arbitrary: doc)
  case Nil
  then show ?case by simp
next
  case (Cons g gs)
  from Cons.prems obtain p where g: "groupPage lib options g = Inr p"
    and r: "addGroups lib options (doc @ [p]) gs = Inr doc'"
    by (auto split: sum.splits)
  from Cons.IH [OF r] obtain pages where
    d: "doc' = (doc @ [p]) @ pages" and l: "list_all2 (pageShows lib) pages gs"
    and n: "\<forall>q \<in> set pages. \<exists>ops. q = NewPage (pageSize lib options) ops"
    by blast
  from groupPage_shows [OF g] have s: "pageShows lib p g"
    and np: "\<exists>ops. p = NewPage (pageSize lib options) ops" by simp_all
  have "doc' = doc @ (p # pages)" using d by simp
  moreover have "list_all2 (pageShows lib) (p # pages) (g # gs)" using s l by simp
  moreover have "\<forall>q \<in> set (p # pages). \<exists>ops. q = NewPage (pageSize lib options) ops"
    using np n by simp
  ultimately show ?case by blast
qed

lemma addGroups_error:
  "addGroups lib options doc gs = Inl e \<Longrightarrow> e = PDFError ''Only jpg, pdf, png are allowed'' None"
  by (induction gs arbitrary: doc) (auto split: sum.splits)

lemma addImagesToDocument_total:
  "addImagesToDocument lib doc images options
     = Some (addGroups lib options doc (chunksOf (ipp_num (imagesPerPage options)) images))"
  by (simp add: addImagesToDocument_def chunkArray_chunksOf ipp_num_pos)

lemma pageShows_all:
  "list_all2 (pageShows lib) pages gs \<Longrightarrow>
   map Inr (concat (map drawnImages pages)) = map (decodeImage lib) (concat gs)"
  by (induction pages gs rule: list_all2_induct) (simp_all add: pageShows_def)

lemma map_chunks_concat:
  assumes "0 < k"
  shows "concat (map (\<lambda>j. take k (drop (j * k) xs)) [0 ..< length (chunksOf k xs)]) = xs"
proof -
  have "map (\<lambda>j. take k (drop (j * k) xs)) [0 ..< length (chunksOf k xs)]
        = map (\<lambda>j. chunksOf k xs ! j) [0 ..< length (chunksOf k xs)]"
    using assms by (simp add: nth_chunksOf)
  also have "\<dots> = chunksOf k xs" by (rule map_nth)
  finally show ?thesis using assms by (simp add: concat_chunksOf)
qed

text \<open>
  Claim C7. For every list of images and every number \<open>k\<close> of images per page,
  \<^verbatim>\<open>addImagesToDocument\<close> returns, and when it returns without an error it has added
  exactly \<open>\<lceil>n / k\<rceil>\<close> pages for \<open>n\<close> images; page \<open>j\<close> shows the images of the chunk
  that starts at index \<open>j * k\<close> and has \<open>k\<close> elements (fewer for the last chunk if the
  images run out), and the chunks together are the list of images, in its order.
\<close>

theorem addImagesToDocument_chunks:
  "\<exists>r. addImagesToDocument lib doc images options = Some r
     \<and> (\<forall>doc'. r = Inr doc' \<longrightarrow>
          (\<exists>pages. doc' = doc @ pages
             \<and> length pages
                 = nat \<lceil>real (length images) / real (ipp_num (imagesPerPage options))\<rceil>
             \<and> (\<forall>j < length pages.
                  pageShows lib (pages ! j)
                    (take (ipp_num (imagesPerPage options))
                       (drop (j * ipp_num (imagesPerPage options)) images)))
             \<and> concat (map (\<lambda>j. take (ipp_num (imagesPerPage options))
                                    (drop (j * ipp_num (imagesPerPage options)) images))
                          [0 ..< length pages]) = images))"
proof -
  let ?k = "ipp_num (imagesPerPage options)"
  let ?cs = "chunksOf ?k images"
  have k: "0 < ?k" by (rule ipp_num_pos)
  have t: "addImagesToDocument lib doc images options = Some (addGroups lib options doc ?cs)"
    by (rule addImagesToDocument_total)
  have "\<exists>pages. doc' = doc @ pages
             \<and> length pages = nat \<lceil>real (length images) / real ?k\<rceil>
             \<and> (\<forall>j < length pages.
                  pageShows lib (pages ! j) (take ?k (drop (j * ?k) images)))
             \<and> concat (map (\<lambda>j. take ?k (drop (j * ?k) images)) [0 ..< length pages]) = images"
    if a: "addGroups lib options doc ?cs = Inr doc'" for doc'
  proof -
    from addGroups_pages [OF a] obtain pages where
      d: "doc' = doc @ pages" and l: "list_all2 (pageShows lib) pages ?cs"
      by blast
    from l have len: "length pages = length ?cs" by (rule list_all2_lengthD)
    then have n: "length pages = nat \<lceil>real (length images) / real ?k\<rceil>"
      using k by (simp add: length_chunksOf ceiling_div_nat)
    have s: "pageShows lib (pages ! j) (take ?k (drop (j * ?k) images))"
      if "j < length pages" for j
    proof -
      from that len have j: "j < length ?cs" by simp
      from list_all2_nthD [OF l that] have "pageShows lib (pages ! j) (?cs ! j)" .
      with nth_chunksOf [OF k j] show ?thesis by simp
    qed
    have c: "concat (map (\<lambda>j. take ?k (drop (j * ?k) images)) [0 ..< length pages]) = images"
      unfolding len by (rule map_chunks_concat [OF k])
    from d n s c show ?thesis by blast
  qed
  with t show ?thesis by blast
qed

text \<open>The other direction: when every image decodes, and the border is off or its colour
  is one that the library accepts, the pages are made.\<close>

lemma embedImageInPage_succeeds:
  assumes "decodeImage lib file = Inr img"
    and "enabled (d_border d) \<Longrightarrow>
         \<exists>r g b c. borderColor (color (d_border d)) = Some (r, g, b) \<and> rgb lib r g b = Inr c"
  shows "\<exists>ops'. embedImageInPage lib ops file d = Inr ops'"
proof (cases "enabled (d_border d)")
  case True
  with assms(2) obtain r g b c where "borderColor (color (d_border d)) = Some (r, g, b)"
    and "rgb lib r g b = Inr c" by blast
  with assms(1) True show ?thesis
    by (simp add: embedImageInPage_def Let_def split: prod.splits)
next
  case False
  with assms(1) show ?thesis
    by (simp add: embedImageInPage_def Let_def split: prod.splits)
qed

lemma slotDimensions_border: "d_border (slotDimensions w h options i) = border options"
  by (simp add: slotDimensions_def Let_def)

lemma embedGroup_succeeds:
  assumes "\<forall>f \<in> set fs. \<exists>img. decodeImage lib f = Inr img"
    and "enabled (border options) \<Longrightarrow>
         \<exists>r g b c. borderColor (color (border options)) = Some (r, g, b) \<and> rgb lib r g b = Inr c"
  shows "\<exists>ops'. embedGroup lib w h options i fs ops = Inr ops'"
  using assms(1)
proof (induction fs arbitrary: i ops)
  case Nil
  then show ?case by simp
next
  case (Cons f fs)
  then obtain img where d: "decodeImage lib f = Inr img" by auto
  have "\<exists>ops'. embedImageInPage lib ops f (slotDimensions w h options i) = Inr ops'"
    by (rule embedImageInPage_succeeds [OF d])
       (use assms(2) in \<open>simp only: slotDimensions_border\<close>)
  then obtain ops1 where e: "embedImageInPage lib ops f (slotDimensions w h options i) = Inr ops1"
    by blast
  from Cons have "\<exists>ops'. embedGroup lib w h options (i + 1) fs ops1 = Inr ops'" by simp
  with e show ?case by simp
qed

lemma addGroups_succeeds:
  assumes "\<forall>f \<in> set (concat gs). \<exists>img. decodeImage lib f = Inr img"
    and "enabled (border options) \<Longrightarrow>
         \<exists>r g b c. borderColor (color (border options)) = Some (r, g, b) \<and> rgb lib r g b = Inr c"
  shows "\<exists>doc'. addGroups lib options doc gs = Inr doc'"
  using assms(1)
proof (induction gs arbitrary: doc)
  case Nil
  then show ?case by simp
next
  case (Cons g gs)
  obtain w h where sz: "pageSize lib options = (w, h)" by (cases "pageSize lib options")
  from Cons.prems have "\<forall>f \<in> set g. \<exists>img. decodeImage lib f = Inr img" by simp
  from embedGroup_succeeds [OF this assms(2), of w h 0 "[]"]
  obtain ops where "embedGroup lib w h options 0 g [] = Inr ops" by blast
  with sz have p: "groupPage lib options g = Inr (NewPage (w, h) ops)"
    by (simp add: groupPage_def)
  from Cons.prems have "\<forall>f \<in> set (concat gs). \<exists>img. decodeImage lib f = Inr img" by simp
  from Cons.IH [OF this, of "doc @ [NewPage (w, h) ops]"] p show ?case by simp
qed

lemma addImagesToDocument_succeeds:
  assumes "\<forall>f \<in> set images. \<exists>img. decodeImage lib f = Inr img"
    and "enabled (border options) \<Longrightarrow>
         \<exists>r g b c. borderColor (color (border options)) = Some (r, g, b) \<and> rgb lib r g b = Inr c"
  shows "\<exists>doc'. addImagesToDocument lib doc images options = Some (Inr doc')"
proof -
  have "concat (chunksOf (ipp_num (imagesPerPage options)) images) = images"
    by (simp add: concat_chunksOf ipp_num_pos)
  with assms(1)
  have "\<forall>f \<in> set (concat (chunksOf (ipp_num (imagesPerPage options)) images)).
          \<exists>img. decodeImage lib f = Inr img"
    by simp
  from addGroups_succeeds [OF this assms(2)] show ?thesis
    by (simp add: addImagesToDocument_total)
qed

lemma example_images_decode:
  "\<forall>f \<in> set [jpegFile ''A'' [1], pngFile ''B'' [2], jpegFile ''C'' [3], pngFile ''D'' [4]].
     \<exists>img. decodeImage exampleLib f = Inr img"
  by (simp add: decodeImage_def exampleLib_def jpegFile_def pngFile_def startsWith_def)

lemma defaultOptions_border: "\<not> enabled (border defaultOptions)"
  by (simp add: defaultOptions_def initialState_def)

lemma length_two: "length xs = 2 \<Longrightarrow> \<exists>a b. xs = [a, b]"
  by (auto simp: length_Suc_conv numeral_2_eq_2)

text \<open>Four images \<open>A\<close>, \<open>B\<close>, \<open>C\<close>, \<open>D\<close> at two per page give two pages, the first showing
  \<open>A\<close> and \<open>B\<close>, the second \<open>C\<close> and \<open>D\<close>.\<close>

theorem addImagesToDocument_chunks_witness:
  "\<exists>p1 p2.
     addImagesToDocument exampleLib []
       [jpegFile ''A'' [1], pngFile ''B'' [2], jpegFile ''C'' [3], pngFile ''D'' [4]]
       (defaultOptions\<lparr>imagesPerPage := Two\<rparr>)
       = Some (Inr [p1, p2])
     \<and> nat \<lceil>real (length [jpegFile ''A'' [1], pngFile ''B'' [2], jpegFile ''C'' [3],
                            pngFile ''D'' [4]])
              / real (ipp_num Two)\<rceil> = 2
     \<and> pageShows exampleLib p1 [jpegFile ''A'' [1], pngFile ''B'' [2]]
     \<and> pageShows exampleLib p2 [jpegFile ''C'' [3], pngFile ''D'' [4]]"
proof -
  let ?imgs = "[jpegFile ''A'' [1], pngFile ''B'' [2], jpegFile ''C'' [3], pngFile ''D'' [4]]"
  let ?o = "defaultOptions\<lparr>imagesPerPage := Two\<rparr>"
  have k: "ipp_num (imagesPerPage ?o) = 2" by simp
  have "\<exists>doc'. addImagesToDocument exampleLib [] ?imgs ?o = Some (Inr doc')"
    by (rule addImagesToDocument_succeeds [OF example_images_decode])
       (simp add: defaultOptions_border)
  then obtain doc' where ok: "addImagesToDocument exampleLib [] ?imgs ?o = Some (Inr doc')"
    by blast
  from addImagesToDocument_chunks [of exampleLib "[]" ?imgs ?o]
  obtain r where r: "addImagesToDocument exampleLib [] ?imgs ?o = Some r"
    and p: "\<forall>doc'. r = Inr doc' \<longrightarrow>
          (\<exists>pages. doc' = [] @ pages
             \<and> length pages
                 = nat \<lceil>real (length ?imgs) / real (ipp_num (imagesPerPage ?o))\<rceil>
             \<and> (\<forall>j < length pages.
                  pageShows exampleLib (pages ! j)
                    (take (ipp_num (imagesPerPage ?o))
                       (drop (j * ipp_num (imagesPerPage ?o)) ?imgs)))
             \<and> concat (map (\<lambda>j. take (ipp_num (imagesPerPage ?o))
                                    (drop (j * ipp_num (imagesPerPage ?o)) ?imgs))
                          [0 ..< length pages]) = ?imgs)"
    by blast
  from r ok have "r = Inr doc'" by simp
  with p obtain pages where pg: "doc' = [] @ pages"
    and n: "length pages = nat \<lceil>real (length ?imgs) / real (ipp_num (imagesPerPage ?o))\<rceil>"
    and s: "\<forall>j < length pages.
                  pageShows exampleLib (pages ! j)
                    (take (ipp_num (imagesPerPage ?o))
                       (drop (j * ipp_num (imagesPerPage ?o)) ?imgs))"
    by blast
  have c: "nat \<lceil>real (length ?imgs) / real (ipp_num Two)\<rceil> = 2" by simp
  from n have "length pages = 2" by simp
  from length_two [OF this] obtain p1 p2 where pages: "pages = [p1, p2]" by blast
  from pg pages ok have e: "addImagesToDocument exampleLib [] ?imgs ?o = Some (Inr [p1, p2])"
    by simp
  from s [rule_format, of 0]
  have s0: "pageShows exampleLib p1 [jpegFile ''A'' [1], pngFile ''B'' [2]]"
    unfolding pages k by simp
  from s [rule_format, of 1]
  have s1: "pageShows exampleLib p2 [jpegFile ''C'' [3], pngFile ''D'' [4]]"
    unfolding pages k by simp
  from e c s0 s1 show ?thesis by (intro exI conjI)
qed

subsection \<open>The order of the pages\<close>

lemma classify_filter:
  "classify fs =
     (filter (\<lambda>f. startsWith (ftype f) ''image/'') fs,
      filter (\<lambda>f. ftype f = ''application/pdf'') fs)"
proof (induction fs)
  case Nil
  then show ?case by simp
next
  case (Cons f fs)
  have "ftype f = ''application/pdf'' \<Longrightarrow> \<not> startsWith (ftype f) ''image/''"
    by (simp add: startsWith_def)
  with Cons show ?case by auto
qed

lemma addPDFToPDF_pages:
  assumes "addPDFToPDF lib doc file = Inr doc'"
  shows "\<exists>ps. load lib (fbytes file) = Inr ps \<and> ps \<noteq> [] \<and> doc' = doc @ map CopiedPage ps"
proof -
  from assms obtain ps where l: "load lib (fbytes file) = Inr ps"
    and ne: "map (\<lambda>i. CopiedPage (ps ! i)) [0 ..< length ps] \<noteq> []"
    and d: "doc' = doc @ map (\<lambda>i. CopiedPage (ps ! i)) [0 ..< length ps]"
    by (auto simp: addPDFToPDF_def Let_def split: sum.splits option.splits if_splits)
  have "map (\<lambda>i. CopiedPage (ps ! i)) [0 ..< length ps] = map CopiedPage (map ((!) ps) [0 ..< length ps])"
    by simp
  also have "\<dots> = map CopiedPage ps" by (simp only: map_nth)
  finally have m: "map (\<lambda>i. CopiedPage (ps ! i)) [0 ..< length ps] = map CopiedPage ps" .
  with l ne d show ?thesis by auto
qed

lemma addPDFs_pages:
  "addPDFs lib doc fs = Inr doc' \<Longrightarrow>
   doc' = doc @ concat (map (copiedPagesOf lib) fs)
   \<and> (\<forall>f \<in> set fs. \<exists>ps. load lib (fbytes f) = Inr ps \<and> ps \<noteq> []
                          \<and> copiedPagesOf lib f = map CopiedPage ps)"
proof (induction fs arbitrary: doc)
  case Nil
  then show ?case by simp
next
  case (Cons f fs)
  from Cons.prems obtain doc1 where a: "addPDFToPDF lib doc f = Inr doc1"
    and r: "addPDFs lib doc1 fs = Inr doc'"
    by (auto split: sum.splits)
  from addPDFToPDF_pages [OF a] obtain ps where l: "load lib (fbytes f) = Inr ps"
    and ne: "ps \<noteq> []" and d: "doc1 = doc @ map CopiedPage ps"
    by blast
  from l have c: "copiedPagesOf lib f = map CopiedPage ps"
    by (simp add: copiedPagesOf_def)
  from Cons.IH [OF r] d c l ne show ?case by simp
qed

text \<open>
  Claim C2. When the merge returns a document, its pages are the pages made for the
  images, which show the image files in the order of the input, followed by the pages of
  the PDF files in the order of the input, each PDF file contributing a copy of every
  page of its loaded document, first page first.
\<close>

theorem createPDF_page_order:
  assumes "createPDF lib fs options = Some (Inr out)"
  shows "\<exists>imagePages.
           out = imagePages
                 @ concat (map (copiedPagesOf lib)
                             (filter (\<lambda>f. ftype f = ''application/pdf'') fs))
           \<and> map Inr (concat (map drawnImages imagePages))
               = map (decodeImage lib) (filter (\<lambda>f. startsWith (ftype f) ''image/'') fs)
           \<and> (\<forall>p \<in> set imagePages. \<exists>ops. p = NewPage (pageSize lib options) ops)
           \<and> (\<forall>f \<in> set (filter (\<lambda>f. ftype f = ''application/pdf'') fs).
                 \<exists>ps. load lib (fbytes f) = Inr ps \<and> ps \<noteq> []
                      \<and> copiedPagesOf lib f = map CopiedPage ps)"
proof -
  let ?images = "filter (\<lambda>f. startsWith (ftype f) ''image/'') fs"
  let ?pdfs = "filter (\<lambda>f. ftype f = ''application/pdf'') fs"
  let ?k = "ipp_num (imagesPerPage options)"
  from assms obtain doc1 where
    i: "(if ?images \<noteq> [] then addImagesToDocument lib [] ?images options else Some (Inr []))
          = Some (Inr doc1)"
    and p: "addPDFs lib doc1 ?pdfs = Inr out"
    by (auto simp: createPDF_def classify_filter
             split: if_splits option.splits sum.splits)
  have "\<exists>pages. doc1 = pages
          \<and> map Inr (concat (map drawnImages pages)) = map (decodeImage lib) ?images
          \<and> (\<forall>p \<in> set pages. \<exists>ops. p = NewPage (pageSize lib options) ops)"
  proof (cases "?images = []")
    case True
    with i show ?thesis by simp
  next
    case False
    with i have "addGroups lib options [] (chunksOf ?k ?images) = Inr doc1"
      by (simp add: addImagesToDocument_total)
    from addGroups_pages [OF this] obtain pages where d: "doc1 = pages"
      and l: "list_all2 (pageShows lib) pages (chunksOf ?k ?images)"
      and n: "\<forall>p \<in> set pages. \<exists>ops. p = NewPage (pageSize lib options) ops"
      by auto
    from pageShows_all [OF l]
    have "map Inr (concat (map drawnImages pages)) = map (decodeImage lib) ?images"
      by (simp add: concat_chunksOf ipp_num_pos)
    with d n show ?thesis by blast
  qed
  with addPDFs_pages [OF p] show ?thesis by blast
qed

lemma createPDF_success:
  assumes "fs \<noteq> []" and "\<not> createFails lib" and "classify fs = (images, pdfs)"
    and "images \<noteq> []"
    and "addImagesToDocument lib [] images options = Some (Inr doc1)"
    and "addPDFs lib doc1 pdfs = Inr doc2" and "saveFails lib doc2 = None"
  shows "createPDF lib fs options = Some (Inr doc2)"
  using assms by (simp add: createPDF_def)

lemma createPDF_example_runs:
  assumes "addImagesToDocument exampleLib [] [jpegFile ''A'' [1]] defaultOptions
           = Some (Inr doc1)"
  shows "createPDF exampleLib [pdfFile ''P'' [80], jpegFile ''A'' [1], pdfFile ''Q'' [81]]
           defaultOptions
         = Some (Inr (doc1 @ [CopiedPage ''P-page1'', CopiedPage ''P-page2'',
                              CopiedPage ''Q-page1'']))"
proof -
  have c: "classify [pdfFile ''P'' [80], jpegFile ''A'' [1], pdfFile ''Q'' [81]]
           = ([jpegFile ''A'' [1]], [pdfFile ''P'' [80], pdfFile ''Q'' [81]])"
    by (simp add: pdfFile_def jpegFile_def startsWith_def)
  have p: "addPDFs exampleLib doc1 [pdfFile ''P'' [80], pdfFile ''Q'' [81]]
           = Inr (doc1 @ [CopiedPage ''P-page1'', CopiedPage ''P-page2'', CopiedPage ''Q-page1''])"
    by (simp add: addPDFToPDF_def exampleLib_def pdfFile_def orUnknown_def)
  have l: "\<not> createFails exampleLib" by (simp add: exampleLib_def)
  have s: "saveFails exampleLib (doc1 @ [CopiedPage ''P-page1'', CopiedPage ''P-page2'',
                                        CopiedPage ''Q-page1'']) = None"
    by (simp add: exampleLib_def)
  show ?thesis
    by (rule createPDF_success [OF _ l c _ assms p s]) simp_all
qed

text \<open>The files \<open>P\<close> (two pages), \<open>A\<close> (an image) and \<open>Q\<close> (one page), given in that
  order, merge into the pages of \<open>A\<close>, then the two pages of \<open>P\<close> and the page of \<open>Q\<close>.\<close>

theorem createPDF_page_order_witness:
  "\<exists>imagePages.
     createPDF exampleLib [pdfFile ''P'' [80], jpegFile ''A'' [1], pdfFile ''Q'' [81]]
       defaultOptions
       = Some (Inr (imagePages
                    @ [CopiedPage ''P-page1'', CopiedPage ''P-page2'', CopiedPage ''Q-page1'']))
     \<and> map Inr (concat (map drawnImages imagePages))
         = [decodeImage exampleLib (jpegFile ''A'' [1])]
     \<and> decodeImage exampleLib (jpegFile ''A'' [1])
         = Inr \<lparr>iref = 1, iwidth = 400, iheight = 200\<rparr>"
proof -
  let ?fs = "[pdfFile ''P'' [80], jpegFile ''A'' [1], pdfFile ''Q'' [81]]"
  let ?tail = "[CopiedPage ''P-page1'', CopiedPage ''P-page2'', CopiedPage ''Q-page1'']"
  have d: "decodeImage exampleLib (jpegFile ''A'' [1])
           = Inr \<lparr>iref = 1, iwidth = 400, iheight = 200\<rparr>"
    by (simp add: decodeImage_def exampleLib_def jpegFile_def startsWith_def)
  then have dec: "\<forall>f \<in> set [jpegFile ''A'' [1]]. \<exists>img. decodeImage exampleLib f = Inr img"
    by simp
  have "\<exists>doc'. addImagesToDocument exampleLib [] [jpegFile ''A'' [1]] defaultOptions
                = Some (Inr doc')"
    by (rule addImagesToDocument_succeeds [OF dec]) (simp add: defaultOptions_border)
  then obtain doc1 where
    "addImagesToDocument exampleLib [] [jpegFile ''A'' [1]] defaultOptions = Some (Inr doc1)"
    by blast
  from createPDF_example_runs [OF this]
  have run: "createPDF exampleLib ?fs defaultOptions = Some (Inr (doc1 @ ?tail))" .
  have pdfs: "concat (map (copiedPagesOf exampleLib)
                        (filter (\<lambda>f. ftype f = ''application/pdf'') ?fs)) = ?tail"
    by (simp add: copiedPagesOf_def exampleLib_def pdfFile_def jpegFile_def)
  have imgs: "filter (\<lambda>f. startsWith (ftype f) ''image/'') ?fs = [jpegFile ''A'' [1]]"
    by (simp add: pdfFile_def jpegFile_def startsWith_def)
  from createPDF_page_order [OF run]
  obtain imagePages where
    a: "doc1 @ ?tail = imagePages
         @ concat (map (copiedPagesOf exampleLib)
                     (filter (\<lambda>f. ftype f = ''application/pdf'') ?fs))"
    and b: "map Inr (concat (map drawnImages imagePages))
           = map (decodeImage exampleLib) (filter (\<lambda>f. startsWith (ftype f) ''image/'') ?fs)"
    by blast
  from a have a': "doc1 @ ?tail = imagePages @ ?tail" by (simp only: pdfs)
  from b have b': "map Inr (concat (map drawnImages imagePages))
        = [decodeImage exampleLib (jpegFile ''A'' [1])]"
    by (simp only: imgs list.map)
  from run a' have r: "createPDF exampleLib ?fs defaultOptions = Some (Inr (imagePages @ ?tail))"
    by simp
  from r b' d show ?thesis by (intro exI conjI)
qed

subsection \<open>The photograph of the fitted box, through the whole merge\<close>

text \<open>The merge of the one photograph, with the options of the photograph, returns a
  document of one landscape page on which the photograph is drawn in the box that is
  higher than its slot.\<close>

lemma photo_page:
  "groupPage photoLib photoOptions [jpegFile ''photo.jpg'' [1]]
   = Inr (NewPage (7405342754466693 / 2 ^ 43, 2618069127129989 / 2 ^ 42)
           [DrawImage \<lparr>iref = 0, iwidth = 2619, iheight = 1588\<rparr>
                20 (3518437208883199 / 2 ^ 45) (7141459963800453 / 2 ^ 43)
                (8660281345945109 / 2 ^ 44)])"
  by (simp only: groupPage_def A4_landscape prod.case embedGroup.simps photo_slot photo_embed
        sum.case)

lemma createPDF_photo:
  "createPDF photoLib [jpegFile ''photo.jpg'' [1]] photoOptions
   = Some (Inr [NewPage (7405342754466693 / 2 ^ 43, 2618069127129989 / 2 ^ 42)
           [DrawImage \<lparr>iref = 0, iwidth = 2619, iheight = 1588\<rparr>
                20 (3518437208883199 / 2 ^ 45) (7141459963800453 / 2 ^ 43)
                (8660281345945109 / 2 ^ 44)]])"
proof -
  have c: "classify [jpegFile ''photo.jpg'' [1]] = ([jpegFile ''photo.jpg'' [1]], [])"
    by (simp add: jpegFile_def startsWith_def)
  have k: "chunksOf (ipp_num (imagesPerPage photoOptions)) [jpegFile ''photo.jpg'' [1]]
           = [[jpegFile ''photo.jpg'' [1]]]"
    by (simp add: photoOptions_def chunksOf.simps)
  have a: "addImagesToDocument photoLib [] [jpegFile ''photo.jpg'' [1]] photoOptions
           = Some (Inr [NewPage (7405342754466693 / 2 ^ 43, 2618069127129989 / 2 ^ 42)
           [DrawImage \<lparr>iref = 0, iwidth = 2619, iheight = 1588\<rparr>
                20 (3518437208883199 / 2 ^ 45) (7141459963800453 / 2 ^ 43)
                (8660281345945109 / 2 ^ 44)]])"
    by (simp only: addImagesToDocument_total k addGroups.simps photo_page sum.case append_Nil)
  have l: "\<not> createFails photoLib" by (simp add: photoLib_def exampleLib_def)
  have s: "saveFails photoLib [NewPage (7405342754466693 / 2 ^ 43, 2618069127129989 / 2 ^ 42)
           [DrawImage \<lparr>iref = 0, iwidth = 2619, iheight = 1588\<rparr>
                20 (3518437208883199 / 2 ^ 45) (7141459963800453 / 2 ^ 43)
                (8660281345945109 / 2 ^ 44)]] = None"
    by (simp add: photoLib_def exampleLib_def)
  show ?thesis
    by (rule createPDF_success [OF _ l c _ a _ s]) simp_all
qed

subsection \<open>An image that does not decode\<close>

text \<open>An image file that does not decode makes the whole merge fail, and the error is
  the fixed one of the \<^verbatim>\<open>catch\<close> in \<^verbatim>\<open>addImagesToDocument\<close>, whatever the file.\<close>

lemma createPDF_undecodable_image:
  assumes "f \<in> set fs" and "startsWith (ftype f) ''image/''"
    and "decodeImage lib f = Inl m" and "\<not> createFails lib"
  shows "createPDF lib fs options
         = Some (Inl (PDFError ''Only jpg, pdf, png are allowed'' None))"
proof -
  let ?images = "filter (\<lambda>f. startsWith (ftype f) ''image/'') fs"
  let ?cs = "chunksOf (ipp_num (imagesPerPage options)) ?images"
  from assms(1,2) have fi: "f \<in> set ?images" by simp
  then have ne: "?images \<noteq> []" by (metis empty_iff list.set(1))
  from assms(1) have fne: "fs \<noteq> []" by auto
  have "\<exists>e. addGroups lib options [] ?cs = Inl e"
  proof (cases "addGroups lib options [] ?cs")
    case (Inl e)
    then show ?thesis by blast
  next
    case (Inr doc')
    from addGroups_pages [OF Inr] obtain pages where
      l: "list_all2 (pageShows lib) pages ?cs" by blast
    from pageShows_all [OF l]
    have "map Inr (concat (map drawnImages pages)) = map (decodeImage lib) ?images"
      by (simp add: concat_chunksOf ipp_num_pos)
    then have "decodeImage lib f \<in> set (map Inr (concat (map drawnImages pages)))"
      using fi by simp
    with assms(3) show ?thesis by auto
  qed
  then obtain e where e: "addGroups lib options [] ?cs = Inl e" by blast
  from addGroups_error [OF e] e
  have "addGroups lib options [] ?cs = Inl (PDFError ''Only jpg, pdf, png are allowed'' None)"
    by simp
  with ne fne assms(4) show ?thesis
    by (simp add: createPDF_def classify_filter addImagesToDocument_total)
qed

text \<open>
  Claim C1 asks that the merge of an image that cannot be decoded fails with an error
  that names the file. For the file \<^verbatim>\<open>photo.png\<close>, whose content is no PNG,
  \<^verbatim>\<open>embedImageInPage\<close> throws an error that carries the file name, but the merge fails with
  the error \<^verbatim>\<open>Only jpg, pdf, png are allowed\<close>, which has no file name and whose message
  does not contain \<^verbatim>\<open>photo.png\<close>.
\<close>

theorem createPDF_undecodable_image_error:
  "decodeImage exampleLib (pngFile ''photo.png'' [1, 2, 3]) = Inl ''The input is not a PNG file!''
   \<and> embedImageInPage exampleLib [] (pngFile ''photo.png'' [1, 2, 3])
         (slotDimensions (fst (pageSize exampleLib defaultOptions))
            (snd (pageSize exampleLib defaultOptions)) defaultOptions 0)
       = Inl (PDFError ''Failed to embed image: The input is not a PNG file!''
                (Some (ascii ''photo.png'')))
   \<and> createPDF exampleLib [pngFile ''photo.png'' [1, 2, 3]] defaultOptions
       = Some (Inl (PDFError ''Only jpg, pdf, png are allowed'' None))
   \<and> \<not> includes_str ''Only jpg, pdf, png are allowed'' ''photo.png''"
proof -
  have d: "decodeImage exampleLib (pngFile ''photo.png'' [1, 2, 3])
             = Inl ''The input is not a PNG file!''"
    by (simp add: decodeImage_def exampleLib_def pngFile_def startsWith_def)
  have e: "embedImageInPage exampleLib [] (pngFile ''photo.png'' [1, 2, 3])
             (slotDimensions (fst (pageSize exampleLib defaultOptions))
                (snd (pageSize exampleLib defaultOptions)) defaultOptions 0)
           = Inl (PDFError ''Failed to embed image: The input is not a PNG file!''
                    (Some (ascii ''photo.png'')))"
    by (simp add: embedImageInPage_def d) (simp add: pngFile_def)
  have c: "createPDF exampleLib [pngFile ''photo.png'' [1, 2, 3]] defaultOptions
             = Some (Inl (PDFError ''Only jpg, pdf, png are allowed'' None))"
    by (rule createPDF_undecodable_image [OF _ _ d])
       (simp_all add: pngFile_def startsWith_def exampleLib_def)
  have n: "\<not> includes_str ''Only jpg, pdf, png are allowed'' ''photo.png''"
    by (simp add: startsWith_def)
  from d e c n show ?thesis by (intro conjI)
qed

subsection \<open>No files\<close>

text \<open>The merge always returns: with a value or with an error.\<close>

lemma createPDF_returns: "\<exists>r. createPDF lib fs options = Some r"
  by (simp add: createPDF_def classify_filter addImagesToDocument_total
           split: sum.splits option.splits)

text \<open>
  Claim C8. Whatever the options and whatever the library does, the merge of an empty
  list of files fails with the error \<^verbatim>\<open>No files provided\<close>: it returns no bytes, and the
  result does not depend on the library, which is not called.
\<close>

theorem createPDF_no_files:
  "createPDF lib [] options = Some (Inl (PDFError ''No files provided'' None))"
  by (simp add: createPDF_def)

end
